theory Spec2Isabelle
  imports Main
begin

section \<open>Data model\<close>

text \<open>
  Instants (\<open>datetime_utc\<close>) are integers: microseconds since 1970-01-01T00:00Z.
  Identifiers (\<open>TimeSlotId\<close>, \<open>CourtId\<close>, \<open>MatchId\<close>, \<open>RefereeId\<close>,
  \<open>TournamentId\<close>) are Python ints.
\<close>

type_synonym datetime_utc = int

text \<open>\<open>TimeSlotInsertable\<close> of \<open>models/db/time_slot.py\<close>: the column values of an insert.\<close>

record TimeSlotInsertable =
  ins_tournament_id :: int
  ins_court_id :: int
  ins_start_time :: datetime_utc
  ins_end_time :: datetime_utc
  ins_is_available :: bool
  ins_match_id :: "int option"

text \<open>\<open>TimeSlot\<close>: a row of table \<open>time_slots\<close>.\<close>

record TimeSlot =
  slot_id :: int
  slot_tournament_id :: int
  slot_court_id :: int
  slot_start_time :: datetime_utc
  slot_end_time :: datetime_utc
  slot_is_available :: bool
  slot_match_id :: "int option"

text \<open>\<open>TimeSlotBody\<close>: the request body of a single-slot create.\<close>

record TimeSlotBody =
  body_court_id :: int
  body_start_time :: datetime_utc
  body_end_time :: datetime_utc
  body_is_available :: bool

text \<open>\<open>Referee\<close> of \<open>models/db/referee.py\<close>: a row of table \<open>referees\<close>.\<close>

record Referee =
  ref_id :: int
  ref_name :: string
  ref_email :: "string option"
  ref_phone :: "string option"
  ref_certification_level :: "string option"
  ref_created :: datetime_utc
  ref_active :: bool
  ref_notes :: "string option"

text \<open>\<open>RefereeAvailability\<close>: a row of table \<open>referees_x_tournaments\<close>.\<close>

record RefereeAvailability =
  avail_referee_id :: int
  avail_tournament_id :: int
  available_from :: datetime_utc
  available_to :: datetime_utc
  max_matches_per_day :: int
  preferred_courts :: "string list"
  avail_notes :: "string option"

text \<open>\<open>RefereeAssignment\<close>: a row of table \<open>referees_x_matches\<close>.\<close>

record RefereeAssignment =
  asg_referee_id :: int
  asg_match_id :: int
  asg_role :: string
  asg_confirmed :: bool
  asg_notes :: "string option"

text \<open>
  Modelled from the spec: the row type of table \<open>matches\<close>, which \<open>bracket.schema\<close>
  declares outside this excerpt. The spec gives a match a start instant, a duration and a
  margin, both in minutes; the conflict query reads the columns \<open>id\<close>, \<open>start_time\<close>,
  \<open>duration_minutes\<close> and \<open>margin_minutes\<close>.
\<close>

record Match =
  m_id :: int
  m_start_time :: datetime_utc
  m_duration_minutes :: int
  m_margin_minutes :: int

text \<open>
  The shared relational store (\<open>bracket.database.database\<close>). Tables are lists of rows in
  insertion order. \<open>tournaments\<close> and \<open>courts\<close> hold the primary keys of the tables of
  those names, which the foreign keys of the migration reference.
  \<open>time_slots_id_seq\<close> is the sequence behind the BIGSERIAL primary key of
  \<open>time_slots\<close>. The surrogate \<open>id\<close> columns of the two bridge tables are never read
  by the code and are left out.
\<close>

record store =
  tournaments :: "int list"
  courts :: "int list"
  matches :: "Match list"
  referees :: "Referee list"
  referees_x_tournaments :: "RefereeAvailability list"
  referees_x_matches :: "RefereeAssignment list"
  time_slots :: "TimeSlot list"
  time_slots_id_seq :: int

text \<open>
  Exceptions as values: \<open>HTTPException status\<close> raised by a route, the integrity errors
  the store raises for the constraints of the migration, and Python's \<open>ValueError\<close> and
  \<open>OverflowError\<close>.
\<close>

datatype error =
    HTTPException nat
  | UniqueViolationError
  | ForeignKeyViolationError
  | ValueError
  | OverflowError

definition HTTP_400_BAD_REQUEST :: nat where
  "HTTP_400_BAD_REQUEST = 400"

definition HTTP_404_NOT_FOUND :: nat where
  "HTTP_404_NOT_FOUND = 404"

definition HTTP_409_CONFLICT :: nat where
  "HTTP_409_CONFLICT = 409"

text \<open>Python truthiness of an \<open>int | None\<close>: \<open>None\<close> and \<open>0\<close> are falsy.\<close>

fun truthy :: "int option \<Rightarrow> bool" where
  "truthy None = False"
| "truthy (Some n) = (n \<noteq> 0)"

section \<open>Conflict checker (\<open>sql/time_slots.py\<close>)\<close>

text \<open>
  \<open>check_slot_conflicts\<close>: the rows of \<open>time_slots\<close> of the tournament and court whose
  \<open>start_time < end_time\<close> and \<open>end_time > start_time\<close> of the proposal; the clause
  \<open>id != exclude_slot_id\<close> is added under \<open>if exclude_slot_id:\<close>.
\<close>

definition check_slot_conflicts ::
  "store \<Rightarrow> int \<Rightarrow> int \<Rightarrow> datetime_utc \<Rightarrow> datetime_utc \<Rightarrow> int option \<Rightarrow> TimeSlot list" where
  "check_slot_conflicts s tournament_id court_id start_time end_time exclude_slot_id =
     filter (\<lambda>row.
        slot_tournament_id row = tournament_id \<and>
        slot_court_id row = court_id \<and>
        (slot_start_time row < end_time \<and> slot_end_time row > start_time) \<and>
        (if truthy exclude_slot_id then Some (slot_id row) \<noteq> exclude_slot_id else True))
      (time_slots s)"

text \<open>The spec's interval predicate (section 4.1), for comparison with the query.\<close>

definition spec_overlaps :: "int \<Rightarrow> int \<Rightarrow> int \<Rightarrow> int \<Rightarrow> bool" where
  "spec_overlaps aStart aEnd bStart bEnd = (aStart < bEnd \<and> bStart < aEnd)"

text \<open>
  The length of \<open>n\<close> minutes and of one calendar day, in microseconds. \<open>minutes\<close> is the
  plain unit conversion; the range check of Python's \<open>timedelta\<close> constructor is
  \<open>timedelta_minutes\<close> below.
\<close>

definition minutes :: "int \<Rightarrow> int" where
  "minutes n = n * 60000000"

definition day_length :: int where
  "day_length = 86400000000"

type_synonym 'a result = "(error + 'a) \<times> store"

section \<open>Time-slot persistence (\<open>sql/time_slots.py\<close>)\<close>

text \<open>
  An \<open>INSERT ... RETURNING\<close> into \<open>time_slots\<close>. The id is the next value of the
  sequence, which advances whether or not the row is accepted. The store raises on the
  primary key and on \<open>unique_court_time_slot (court_id, start_time, end_time)\<close>, then
  on the foreign keys to \<open>tournaments\<close>, \<open>courts\<close> and \<open>matches\<close>.
\<close>

definition insert_time_slot :: "store \<Rightarrow> TimeSlotInsertable \<Rightarrow> TimeSlot result" where
  "insert_time_slot s v =
     (let new_id = time_slots_id_seq s;
          s1 = s\<lparr>time_slots_id_seq := new_id + 1\<rparr>
      in if (\<exists>row \<in> set (time_slots s). slot_id row = new_id) \<or>
            (\<exists>row \<in> set (time_slots s).
               slot_court_id row = ins_court_id v \<and>
               slot_start_time row = ins_start_time v \<and>
               slot_end_time row = ins_end_time v)
         then (Inl UniqueViolationError, s1)
         else if ins_tournament_id v \<notin> set (tournaments s) \<or>
                 ins_court_id v \<notin> set (courts s) \<or>
                 (case ins_match_id v of None \<Rightarrow> False
                  | Some m \<Rightarrow> m \<notin> set (map m_id (matches s)))
         then (Inl ForeignKeyViolationError, s1)
         else (let row = \<lparr>slot_id = new_id,
                           slot_tournament_id = ins_tournament_id v,
                           slot_court_id = ins_court_id v,
                           slot_start_time = ins_start_time v,
                           slot_end_time = ins_end_time v,
                           slot_is_available = ins_is_available v,
                           slot_match_id = ins_match_id v\<rparr>
               in (Inr row, s1\<lparr>time_slots := time_slots s @ [row]\<rparr>)))"

text \<open>\<open>create_time_slot\<close>: the insert always writes \<open>match_id=None\<close>.\<close>

definition create_time_slot :: "store \<Rightarrow> int \<Rightarrow> TimeSlotBody \<Rightarrow> TimeSlot result" where
  "create_time_slot s tournament_id slot =
     insert_time_slot s
       \<lparr>ins_tournament_id = tournament_id,
        ins_court_id = body_court_id slot,
        ins_start_time = body_start_time slot,
        ins_end_time = body_end_time slot,
        ins_is_available = body_is_available slot,
        ins_match_id = None\<rparr>"

definition get_time_slot_by_id :: "store \<Rightarrow> int \<Rightarrow> TimeSlot option" where
  "get_time_slot_by_id s slot_id' = find (\<lambda>row. slot_id row = slot_id') (time_slots s)"

text \<open>
  The \<open>updates: dict\<close> of \<open>update_time_slot\<close>, as the columns it may name with values
  of the column's type. \<open>match_id\<close> is nullable, so its key carries an optional value.
  A key that is no column of the table, the key \<open>id\<close> and a \<open>None\<close> for a column
  that is not nullable are left out.
\<close>

record TimeSlotUpdates =
  upd_tournament_id :: "int option"
  upd_court_id :: "int option"
  upd_start_time :: "datetime_utc option"
  upd_end_time :: "datetime_utc option"
  upd_is_available :: "bool option"
  upd_match_id :: "int option option"

definition apply_updates :: "TimeSlotUpdates \<Rightarrow> TimeSlot \<Rightarrow> TimeSlot" where
  "apply_updates u row =
     row\<lparr>slot_tournament_id := (case upd_tournament_id u of None \<Rightarrow> slot_tournament_id row | Some x \<Rightarrow> x),
         slot_court_id := (case upd_court_id u of None \<Rightarrow> slot_court_id row | Some x \<Rightarrow> x),
         slot_start_time := (case upd_start_time u of None \<Rightarrow> slot_start_time row | Some x \<Rightarrow> x),
         slot_end_time := (case upd_end_time u of None \<Rightarrow> slot_end_time row | Some x \<Rightarrow> x),
         slot_is_available := (case upd_is_available u of None \<Rightarrow> slot_is_available row | Some x \<Rightarrow> x),
         slot_match_id := (case upd_match_id u of None \<Rightarrow> slot_match_id row | Some x \<Rightarrow> x)\<rparr>"

text \<open>
  \<open>update_time_slot\<close>: \<open>UPDATE time_slots SET ... WHERE id = slot_id RETURNING *\<close>,
  then \<open>fetch_one\<close>. The statement is atomic: a constraint it violates leaves the table
  as it was. The unique key is checked when one of its columns is written, a foreign key
  when its column is written.
\<close>

definition update_time_slot ::
  "store \<Rightarrow> int \<Rightarrow> TimeSlotUpdates \<Rightarrow> (TimeSlot option) result" where
  "update_time_slot s slot_id' updates =
     (let rows' = map (\<lambda>row. if slot_id row = slot_id' then apply_updates updates row else row)
                      (time_slots s);
          same_key = (\<lambda>a b. slot_court_id a = slot_court_id b \<and>
                             slot_start_time a = slot_start_time b \<and>
                             slot_end_time a = slot_end_time b)
      in if (upd_court_id updates \<noteq> None \<or> upd_start_time updates \<noteq> None \<or>
             upd_end_time updates \<noteq> None) \<and>
            (\<exists>row \<in> set rows'. slot_id row = slot_id' \<and> length (filter (same_key row) rows') > 1)
         then (Inl UniqueViolationError, s)
         else if (\<exists>row \<in> set (time_slots s). slot_id row = slot_id') \<and>
                 ((case upd_tournament_id updates of None \<Rightarrow> False
                   | Some t \<Rightarrow> t \<notin> set (tournaments s)) \<or>
                  (case upd_court_id updates of None \<Rightarrow> False
                   | Some c \<Rightarrow> c \<notin> set (courts s)) \<or>
                  (case upd_match_id updates of Some (Some m) \<Rightarrow> m \<notin> set (map m_id (matches s))
                   | _ \<Rightarrow> False))
         then (Inl ForeignKeyViolationError, s)
         else (Inr (find (\<lambda>row. slot_id row = slot_id') rows'), s\<lparr>time_slots := rows'\<rparr>))"

definition no_updates :: TimeSlotUpdates where
  "no_updates = \<lparr>upd_tournament_id = None, upd_court_id = None, upd_start_time = None,
                  upd_end_time = None, upd_is_available = None, upd_match_id = None\<rparr>"

text \<open>\<open>assign_match_to_slot\<close>: \<open>{"match_id": match_id, "is_available": False}\<close>.\<close>

definition assign_match_to_slot :: "store \<Rightarrow> int \<Rightarrow> int \<Rightarrow> (TimeSlot option) result" where
  "assign_match_to_slot s slot_id' match_id =
     update_time_slot s slot_id'
       (no_updates\<lparr>upd_match_id := Some (Some match_id), upd_is_available := Some False\<rparr>)"

text \<open>\<open>release_slot\<close>: \<open>{"match_id": None, "is_available": True}\<close>.\<close>

definition release_slot :: "store \<Rightarrow> int \<Rightarrow> (TimeSlot option) result" where
  "release_slot s slot_id' =
     update_time_slot s slot_id'
       (no_updates\<lparr>upd_match_id := Some None, upd_is_available := Some True\<rparr>)"

section \<open>Time-slot routes (\<open>routes/time_slots.py\<close>)\<close>

definition create_new_time_slot :: "store \<Rightarrow> int \<Rightarrow> TimeSlotBody \<Rightarrow> TimeSlot result" where
  "create_new_time_slot s tournament_id slot =
     (let conflicts = check_slot_conflicts s tournament_id (body_court_id slot)
                        (body_start_time slot) (body_end_time slot) None
      in if conflicts \<noteq> [] then (Inl (HTTPException HTTP_409_CONFLICT), s)
         else create_time_slot s tournament_id slot)"

definition update_time_slot_info ::
  "store \<Rightarrow> int \<Rightarrow> TimeSlotUpdates \<Rightarrow> (TimeSlot option) result" where
  "update_time_slot_info s slot_id' updates =
     (case get_time_slot_by_id s slot_id' of
        None \<Rightarrow> (Inl (HTTPException HTTP_404_NOT_FOUND), s)
      | Some existing_slot \<Rightarrow>
          if (upd_start_time updates \<noteq> None \<or> upd_end_time updates \<noteq> None) \<and>
             check_slot_conflicts s
               (slot_tournament_id existing_slot)
               (slot_court_id existing_slot)
               (case upd_start_time updates of None \<Rightarrow> slot_start_time existing_slot | Some t \<Rightarrow> t)
               (case upd_end_time updates of None \<Rightarrow> slot_end_time existing_slot | Some t \<Rightarrow> t)
               (Some slot_id') \<noteq> []
          then (Inl (HTTPException HTTP_409_CONFLICT), s)
          else update_time_slot s slot_id' updates)"

definition assign_match_to_time_slot ::
  "store \<Rightarrow> int \<Rightarrow> int \<Rightarrow> (TimeSlot option) result" where
  "assign_match_to_time_slot s slot_id' match_id =
     (case get_time_slot_by_id s slot_id' of
        None \<Rightarrow> (Inl (HTTPException HTTP_404_NOT_FOUND), s)
      | Some slot \<Rightarrow>
          if \<not> slot_is_available slot then (Inl (HTTPException HTTP_400_BAD_REQUEST), s)
          else if truthy (slot_match_id slot) then (Inl (HTTPException HTTP_400_BAD_REQUEST), s)
          else assign_match_to_slot s slot_id' match_id)"

definition release_time_slot :: "store \<Rightarrow> int \<Rightarrow> (TimeSlot option) result" where
  "release_time_slot s slot_id' =
     (case get_time_slot_by_id s slot_id' of
        None \<Rightarrow> (Inl (HTTPException HTTP_404_NOT_FOUND), s)
      | Some slot \<Rightarrow>
          if \<not> truthy (slot_match_id slot) then (Inl (HTTPException HTTP_400_BAD_REQUEST), s)
          else release_slot s slot_id')"

section \<open>Bulk slot generation (\<open>bulk_create_time_slots\<close>)\<close>

text \<open>\<open>TimeSlotBulkCreate\<close> of \<open>models/db/time_slot.py\<close>.\<close>

record TimeSlotBulkCreate =
  bulk_tournament_id :: int
  court_ids :: "int list"
  start_date :: datetime_utc
  end_date :: datetime_utc
  slot_duration_minutes :: int
  break_duration_minutes :: int
  daily_start_time :: string
  daily_end_time :: string
  exclude_days :: "int list"

text \<open>
  \<open>datetime.strptime(s, "%H:%M")\<close>. The format compiles to the regular expression
  \<open>(2[0-3]|[0-1]\d|\d):([0-5]\d|\d)\<close>, matched at the start of \<open>s\<close> with
  backtracking over the alternatives in their order; no match, or text left after the
  match, raises \<open>ValueError\<close>. Digits are the ASCII digits.
\<close>

definition is_digit :: "char \<Rightarrow> bool" where
  "is_digit c = (c \<in> set ''0123456789'')"

definition digit_value :: "char \<Rightarrow> nat" where
  "digit_value c = of_char c - 48"

text \<open>The prefixes of \<open>s\<close> that the alternatives of \<open>%H\<close> match, first alternative first.\<close>

definition H_alternatives :: "string \<Rightarrow> (nat \<times> string) list" where
  "H_alternatives s =
     (case s of
        a # b # rest \<Rightarrow>
          (if a = CHR ''2'' \<and> b \<in> set ''0123'' then [(20 + digit_value b, rest)] else []) @
          (if a \<in> set ''01'' \<and> is_digit b then [(10 * digit_value a + digit_value b, rest)]
           else [])
      | _ \<Rightarrow> []) @
     (case s of
        a # rest \<Rightarrow> (if is_digit a then [(digit_value a, rest)] else [])
      | [] \<Rightarrow> [])"

text \<open>\<open>%M\<close> ends the pattern, so its first alternative that matches is the one taken.\<close>

fun match_M :: "string \<Rightarrow> (nat \<times> string) option" where
  "match_M (a # b # rest) =
     (if a \<in> set ''012345'' \<and> is_digit b then Some (10 * digit_value a + digit_value b, rest)
      else if is_digit a then Some (digit_value a, b # rest)
      else None)"
| "match_M [a] = (if is_digit a then Some (digit_value a, []) else None)"
| "match_M [] = None"

definition match_colon_M :: "string \<Rightarrow> (nat \<times> string) option" where
  "match_colon_M s =
     (case s of
        c # rest \<Rightarrow> (if c = CHR '':'' then match_M rest else None)
      | [] \<Rightarrow> None)"

text \<open>The parsed \<open>time\<close> of day, in microseconds since midnight.\<close>

definition strptime_HM :: "string \<Rightarrow> error + int" where
  "strptime_HM s =
     (case List.map_filter
             (\<lambda>(h, rest). map_option (\<lambda>(m, rest'). (h, m, rest')) (match_colon_M rest))
             (H_alternatives s) of
        [] \<Rightarrow> Inl ValueError
      | (h, m, rest') # _ \<Rightarrow>
          if rest' = [] then Inr (minutes (int (h * 60 + m))) else Inl ValueError)"

text \<open>
  Calendar dates are day numbers since 1970-01-01 (a Thursday: \<open>weekday()\<close> is 3, Monday
  being 0). \<open>date_of\<close> is \<open>.date()\<close> of a UTC instant and \<open>combine\<close> is
  \<open>datetime.combine(date, time, tzinfo=UTC)\<close>.
\<close>

definition date_of :: "datetime_utc \<Rightarrow> int" where
  "date_of t = t div day_length"

definition weekday :: "int \<Rightarrow> int" where
  "weekday d = (d + 3) mod 7"

definition combine :: "int \<Rightarrow> int \<Rightarrow> datetime_utc" where
  "combine d time_of_day = d * day_length + time_of_day"

text \<open>
  The range of Python's \<open>date\<close> and \<open>datetime\<close>: 0001-01-01 (ordinal 1, which is 719162
  days before 1970-01-01) to 9999-12-31 (ordinal 3652059), the last instant being
  23:59:59.999999 of that day.
\<close>

definition min_date :: int where
  "min_date = - 719162"

definition max_date :: int where
  "max_date = 2932896"

definition min_datetime :: datetime_utc where
  "min_datetime = - 62135596800000000"

definition max_datetime :: datetime_utc where
  "max_datetime = 253402300799999999"

definition valid_datetime :: "datetime_utc \<Rightarrow> bool" where
  "valid_datetime t = (min_datetime \<le> t \<and> t \<le> max_datetime)"

text \<open>
  \<open>timedelta(minutes=n)\<close> raises \<open>OverflowError\<close> when the normalised number of days,
  \<open>n\<close> floor-divided by 1440, is beyond 999999999 in magnitude;
  \<open>datetime + timedelta\<close> and \<open>date + timedelta(days=1)\<close> raise it when the result leaves the
  range of the type. \<open>add_minutes t n\<close> is \<open>t + timedelta(minutes=n)\<close>: the constructor is
  evaluated first.
\<close>

definition timedelta_minutes :: "int \<Rightarrow> error + int" where
  "timedelta_minutes n =
     (if - 999999999 \<le> n div 1440 \<and> n div 1440 \<le> 999999999 then Inr (minutes n)
      else Inl OverflowError)"

definition datetime_add :: "datetime_utc \<Rightarrow> int \<Rightarrow> error + datetime_utc" where
  "datetime_add t delta =
     (if min_datetime \<le> t + delta \<and> t + delta \<le> max_datetime then Inr (t + delta)
      else Inl OverflowError)"

definition add_minutes :: "datetime_utc \<Rightarrow> int \<Rightarrow> error + datetime_utc" where
  "add_minutes t n =
     (case timedelta_minutes n of
        Inl e \<Rightarrow> Inl e
      | Inr delta \<Rightarrow> datetime_add t delta)"

definition next_day :: "int \<Rightarrow> error + int" where
  "next_day d =
     (if min_date \<le> d + 1 \<and> d + 1 \<le> max_date then Inr (d + 1) else Inl OverflowError)"

text \<open>
  The inner \<open>while current_time < end_time_for_day\<close> loop for one court and day. An
  exception, of the insert or of the date arithmetic, ends the whole request; the rows
  inserted before it stay in the store (no transaction is open). The request model
  validates neither duration nor break: when their sum is negative the cursor moves
  backwards and the loop need not end, so it is a partial function: \<open>None\<close> is not
  returning.
\<close>

partial_function (option) slot_loop ::
  "TimeSlotBulkCreate \<Rightarrow> int \<Rightarrow> datetime_utc \<Rightarrow> store \<Rightarrow> TimeSlot list \<Rightarrow> datetime_utc
     \<Rightarrow> (TimeSlot list) result option" where
  "slot_loop bulk_request court_id end_time_for_day s created_slots current_time =
     (if current_time < end_time_for_day then
        (case add_minutes current_time (slot_duration_minutes bulk_request) of
           Inl e \<Rightarrow> Some (Inl e, s)
         | Inr slot_end \<Rightarrow>
             if slot_end > end_time_for_day then Some (Inr created_slots, s)
             else (case insert_time_slot s
                          \<lparr>ins_tournament_id = bulk_tournament_id bulk_request,
                           ins_court_id = court_id,
                           ins_start_time = current_time,
                           ins_end_time = slot_end,
                           ins_is_available = True,
                           ins_match_id = None\<rparr> of
                     (Inl e, s') \<Rightarrow> Some (Inl e, s')
                   | (Inr row, s') \<Rightarrow>
                       (case add_minutes slot_end (break_duration_minutes bulk_request) of
                          Inl e \<Rightarrow> Some (Inl e, s')
                        | Inr next_time \<Rightarrow>
                            slot_loop bulk_request court_id end_time_for_day s'
                              (created_slots @ [row]) next_time)))
      else Some (Inr created_slots, s))"

text \<open>The \<open>for court_id in bulk_request.court_ids\<close> loop of one day.\<close>

fun courts_loop ::
  "TimeSlotBulkCreate \<Rightarrow> int \<Rightarrow> int \<Rightarrow> int \<Rightarrow> store \<Rightarrow> TimeSlot list \<Rightarrow> int list
     \<Rightarrow> (TimeSlot list) result option" where
  "courts_loop bulk_request daily_start daily_end current_date s created_slots [] =
     Some (Inr created_slots, s)"
| "courts_loop bulk_request daily_start daily_end current_date s created_slots (court_id # rest) =
     (case slot_loop bulk_request court_id (combine current_date daily_end) s created_slots
             (combine current_date daily_start) of
        None \<Rightarrow> None
      | Some (Inl e, s') \<Rightarrow> Some (Inl e, s')
      | Some (Inr created_slots', s') \<Rightarrow>
          courts_loop bulk_request daily_start daily_end current_date s' created_slots' rest)"

text \<open>
  The outer \<open>while current_date <= end_date\<close> loop. Both branches end with
  \<open>current_date += timedelta(days=1)\<close>, which raises on the last day of the calendar.
\<close>

function days_loop ::
  "TimeSlotBulkCreate \<Rightarrow> int \<Rightarrow> int \<Rightarrow> int \<Rightarrow> store \<Rightarrow> TimeSlot list \<Rightarrow> int
     \<Rightarrow> (TimeSlot list) result option" where
  "days_loop bulk_request daily_start daily_end end_date' s created_slots current_date =
     (if current_date \<le> end_date' then
        (if weekday current_date \<in> set (exclude_days bulk_request)
         then (case next_day current_date of
                 Inl e \<Rightarrow> Some (Inl e, s)
               | Inr tomorrow \<Rightarrow>
                   days_loop bulk_request daily_start daily_end end_date' s created_slots
                     tomorrow)
         else (case courts_loop bulk_request daily_start daily_end current_date s created_slots
                      (court_ids bulk_request) of
                 None \<Rightarrow> None
               | Some (Inl e, s') \<Rightarrow> Some (Inl e, s')
               | Some (Inr created_slots', s') \<Rightarrow>
                   (case next_day current_date of
                      Inl e \<Rightarrow> Some (Inl e, s')
                    | Inr tomorrow \<Rightarrow>
                        days_loop bulk_request daily_start daily_end end_date' s'
                          created_slots' tomorrow)))
      else Some (Inr created_slots, s))"
  by pat_completeness auto
termination
  by (relation "measure (\<lambda>(bulk_request, daily_start, daily_end, end_date', s, created_slots,
                            current_date). nat (end_date' + 1 - current_date))")
     (auto simp: next_day_def split: if_splits)

declare days_loop.simps [simp del]

definition bulk_create_time_slots ::
  "store \<Rightarrow> TimeSlotBulkCreate \<Rightarrow> (TimeSlot list) result option" where
  "bulk_create_time_slots s bulk_request =
     (case strptime_HM (daily_start_time bulk_request) of
        Inl e \<Rightarrow> Some (Inl e, s)
      | Inr daily_start \<Rightarrow>
          (case strptime_HM (daily_end_time bulk_request) of
             Inl e \<Rightarrow> Some (Inl e, s)
           | Inr daily_end \<Rightarrow>
               days_loop bulk_request daily_start daily_end (date_of (end_date bulk_request))
                 s [] (date_of (start_date bulk_request))))"

section \<open>Referee persistence (\<open>sql/referees.py\<close>)\<close>

definition get_referee_by_id :: "store \<Rightarrow> int \<Rightarrow> Referee option" where
  "get_referee_by_id s referee_id = find (\<lambda>row. ref_id row = referee_id) (referees s)"

text \<open>
  The first query of \<open>get_available_referees_for_time_slot\<close>: \<open>referees\<close> joined with
  \<open>referees_x_tournaments\<close> on the referee id, one result row for each joined pair that
  passes the \<open>where\<close> clause.
\<close>

definition candidate_referees ::
  "store \<Rightarrow> int \<Rightarrow> datetime_utc \<Rightarrow> datetime_utc \<Rightarrow> Referee list" where
  "candidate_referees s tournament_id start_time end_time =
     [referee.
        referee \<leftarrow> referees s,
        rxt \<leftarrow> referees_x_tournaments s,
        ref_id referee = avail_referee_id rxt,
        avail_tournament_id rxt = tournament_id \<and>
        available_from rxt \<le> start_time \<and>
        available_to rxt \<ge> end_time \<and>
        ref_active referee]"

text \<open>
  The textual conflict query: \<open>COUNT(*)\<close> over \<open>referees_x_matches\<close> joined with
  \<open>matches\<close>, for one referee, with \<open>m.start_time < :end_time\<close> and
  \<open>m.start_time + INTERVAL '1 minute' * (m.duration_minutes + m.margin_minutes) > :start_time\<close>.
\<close>

definition conflict_count :: "store \<Rightarrow> int \<Rightarrow> datetime_utc \<Rightarrow> datetime_utc \<Rightarrow> nat" where
  "conflict_count s referee_id start_time end_time =
     length [(rxm, m).
        rxm \<leftarrow> referees_x_matches s,
        m \<leftarrow> matches s,
        asg_match_id rxm = m_id m,
        asg_referee_id rxm = referee_id \<and>
        m_start_time m < end_time \<and>
        m_start_time m + minutes (m_duration_minutes m + m_margin_minutes m) > start_time]"

definition get_available_referees_for_time_slot ::
  "store \<Rightarrow> int \<Rightarrow> datetime_utc \<Rightarrow> datetime_utc \<Rightarrow> Referee list" where
  "get_available_referees_for_time_slot s tournament_id start_time end_time =
     filter (\<lambda>referee. conflict_count s (ref_id referee) start_time end_time = 0)
       (candidate_referees s tournament_id start_time end_time)"

text \<open>
  \<open>assign_referee_to_match\<close>: an insert into \<open>referees_x_matches\<close>, which raises on
  \<open>unique_referee_match_role (referee_id, match_id, role)\<close> and on the foreign keys to
  \<open>referees\<close> and \<open>matches\<close>.
\<close>

definition assign_referee_to_match ::
  "store \<Rightarrow> int \<Rightarrow> int \<Rightarrow> string \<Rightarrow> bool \<Rightarrow> string option \<Rightarrow> RefereeAssignment result" where
  "assign_referee_to_match s referee_id match_id role confirmed notes =
     (if \<exists>row \<in> set (referees_x_matches s).
            asg_referee_id row = referee_id \<and> asg_match_id row = match_id \<and> asg_role row = role
      then (Inl UniqueViolationError, s)
      else if referee_id \<notin> set (map ref_id (referees s)) \<or>
              match_id \<notin> set (map m_id (matches s))
      then (Inl ForeignKeyViolationError, s)
      else (let row = \<lparr>asg_referee_id = referee_id, asg_match_id = match_id, asg_role = role,
                        asg_confirmed = confirmed, asg_notes = notes\<rparr>
            in (Inr row, s\<lparr>referees_x_matches := referees_x_matches s @ [row]\<rparr>)))"

text \<open>
  \<open>update_referee_assignment\<close>: the dictionary \<open>update_values\<close> holds \<open>confirmed\<close> and
  \<open>notes\<close> when they are not \<open>None\<close>; an empty one returns \<open>None\<close> before any query.
  The \<open>UPDATE\<close> writes every row of the (referee, match) pair and \<open>fetch_one\<close> returns
  the first.
\<close>

definition update_referee_assignment ::
  "store \<Rightarrow> int \<Rightarrow> int \<Rightarrow> bool option \<Rightarrow> string option \<Rightarrow> RefereeAssignment option \<times> store" where
  "update_referee_assignment s referee_id match_id confirmed notes =
     (if confirmed = None \<and> notes = None then (None, s)
      else (let hit = (\<lambda>row. asg_referee_id row = referee_id \<and> asg_match_id row = match_id);
                upd = (\<lambda>row. row\<lparr>asg_confirmed := (case confirmed of None \<Rightarrow> asg_confirmed row
                                                      | Some c \<Rightarrow> c),
                                    asg_notes := (case notes of None \<Rightarrow> asg_notes row
                                                  | Some n \<Rightarrow> Some n)\<rparr>);
                rows' = map (\<lambda>row. if hit row then upd row else row) (referees_x_matches s)
            in (find hit rows', s\<lparr>referees_x_matches := rows'\<rparr>)))"

section \<open>Referee routes (\<open>routes/referees.py\<close>)\<close>

definition valid_roles :: "string list" where
  "valid_roles = [''main'', ''assistant'', ''line_judge'', ''video_referee'']"

definition assign_referee ::
  "store \<Rightarrow> int \<Rightarrow> int \<Rightarrow> string \<Rightarrow> bool \<Rightarrow> string option \<Rightarrow> RefereeAssignment result" where
  "assign_referee s match_id referee_id role confirmed notes =
     (case get_referee_by_id s referee_id of
        None \<Rightarrow> (Inl (HTTPException HTTP_404_NOT_FOUND), s)
      | Some referee \<Rightarrow>
          if role \<notin> set valid_roles then (Inl (HTTPException HTTP_400_BAD_REQUEST), s)
          else assign_referee_to_match s referee_id match_id role confirmed notes)"

definition update_referee_match_assignment ::
  "store \<Rightarrow> int \<Rightarrow> int \<Rightarrow> bool option \<Rightarrow> string option \<Rightarrow> RefereeAssignment result" where
  "update_referee_match_assignment s match_id referee_id confirmed notes =
     (case update_referee_assignment s referee_id match_id confirmed notes of
        (None, s') \<Rightarrow> (Inl (HTTPException HTTP_404_NOT_FOUND), s')
      | (Some updated, s') \<Rightarrow> (Inr updated, s'))"

section \<open>The spec's predicates and example stores\<close>

text \<open>The spec's containment predicate (section 4.1) and a match's conflict window (section 3).\<close>

definition spec_contains :: "int \<Rightarrow> int \<Rightarrow> int \<Rightarrow> int \<Rightarrow> bool" where
  "spec_contains outerStart outerEnd innerStart innerEnd =
     (outerStart \<le> innerStart \<and> innerEnd \<le> outerEnd)"

definition spec_conflict_window :: "Match \<Rightarrow> int \<times> int" where
  "spec_conflict_window m =
     (m_start_time m, m_start_time m + minutes (m_duration_minutes m + m_margin_minutes m))"

text \<open>
  Two active referees available 09:00 to 17:00 on 1970-01-01 for tournament 1; the second
  officiates a match that starts at 09:00 and lasts 60 minutes with a margin of 5.
\<close>

definition ex_referee_a :: Referee where
  "ex_referee_a = \<lparr>ref_id = 1, ref_name = ''Ana'', ref_email = None, ref_phone = None,
     ref_certification_level = None, ref_created = 0, ref_active = True, ref_notes = None\<rparr>"

definition ex_referee_b :: Referee where
  "ex_referee_b = \<lparr>ref_id = 2, ref_name = ''Beto'', ref_email = None, ref_phone = None,
     ref_certification_level = None, ref_created = 0, ref_active = True, ref_notes = None\<rparr>"

definition ex_availability :: "int \<Rightarrow> RefereeAvailability" where
  "ex_availability referee_id = \<lparr>avail_referee_id = referee_id, avail_tournament_id = 1,
     available_from = 32400000000, available_to = 61200000000, max_matches_per_day = 5,
     preferred_courts = [], avail_notes = None\<rparr>"

definition ex_match :: Match where
  "ex_match = \<lparr>m_id = 1, m_start_time = 32400000000, m_duration_minutes = 60,
     m_margin_minutes = 5\<rparr>"

definition ex_assignment :: RefereeAssignment where
  "ex_assignment = \<lparr>asg_referee_id = 2, asg_match_id = 1, asg_role = ''main'',
     asg_confirmed = False, asg_notes = None\<rparr>"

definition ex_referee_store :: store where
  "ex_referee_store = \<lparr>tournaments = [1], courts = [7], matches = [ex_match],
     referees = [ex_referee_a, ex_referee_b],
     referees_x_tournaments = [ex_availability 1, ex_availability 2],
     referees_x_matches = [ex_assignment], time_slots = [], time_slots_id_seq = 1\<rparr>"

lemmas ex_referee_defs = ex_referee_store_def ex_referee_a_def ex_referee_b_def
  ex_availability_def ex_match_def ex_assignment_def

text \<open>A store with one slot, 10:00 to 11:00 on court 7 of tournament 1.\<close>

definition ex_slot :: TimeSlot where
  "ex_slot = \<lparr>slot_id = 1, slot_tournament_id = 1, slot_court_id = 7,
     slot_start_time = 36000000000, slot_end_time = 39600000000,
     slot_is_available = True, slot_match_id = None\<rparr>"

definition ex_store :: store where
  "ex_store = \<lparr>tournaments = [1], courts = [7], matches = [ex_match], referees = [],
     referees_x_tournaments = [], referees_x_matches = [], time_slots = [ex_slot],
     time_slots_id_seq = 2\<rparr>"

text \<open>The example store after match 1 has been assigned to its slot.\<close>

definition ex_slot_assigned :: TimeSlot where
  "ex_slot_assigned = ex_slot\<lparr>slot_is_available := False, slot_match_id := Some 1\<rparr>"

definition ex_store_assigned :: store where
  "ex_store_assigned = ex_store\<lparr>time_slots := [ex_slot_assigned]\<rparr>"

lemmas ex_slot_defs = ex_store_def ex_slot_def ex_match_def ex_store_assigned_def ex_slot_assigned_def

text \<open>
  A create request for an unavailable slot, 11:00 to 12:00 on court 7, and the row and
  store it leaves.
\<close>

definition ex_body_unavailable :: TimeSlotBody where
  "ex_body_unavailable = \<lparr>body_court_id = 7, body_start_time = 39600000000,
     body_end_time = 43200000000, body_is_available = False\<rparr>"

definition ex_slot_created :: TimeSlot where
  "ex_slot_created = \<lparr>slot_id = 2, slot_tournament_id = 1, slot_court_id = 7,
     slot_start_time = 39600000000, slot_end_time = 43200000000,
     slot_is_available = False, slot_match_id = None\<rparr>"

definition ex_store_created :: store where
  "ex_store_created = ex_store\<lparr>time_slots := [ex_slot, ex_slot_created], time_slots_id_seq := 3\<rparr>"

text \<open>
  The referee store after referee 2 has also been made assistant of match 1.
\<close>

definition ex_assignment_assistant :: RefereeAssignment where
  "ex_assignment_assistant = \<lparr>asg_referee_id = 2, asg_match_id = 1, asg_role = ''assistant'',
     asg_confirmed = False, asg_notes = None\<rparr>"

definition ex_referee_store_two_roles :: store where
  "ex_referee_store_two_roles =
     ex_referee_store\<lparr>referees_x_matches := [ex_assignment, ex_assignment_assistant]\<rparr>"

section \<open>The spec's slot grid (section 4.2)\<close>

text \<open>
  The cursor walk of one court and day in the spec's words: from \<open>cursor\<close>, emit
  \<open>[cursor, cursor + duration)\<close> only if \<open>cursor + duration \<le> daily_close\<close>, advance by
  \<open>duration + break\<close>, stop at the first slot that would exceed \<open>daily_close\<close>. The
  spec's input domain is \<open>duration > 0\<close> and \<open>break \<ge> 0\<close>; outside it the walk is empty.
\<close>

function spec_day_slots :: "int \<Rightarrow> int \<Rightarrow> int \<Rightarrow> int \<Rightarrow> (int \<times> int) list" where
  "spec_day_slots cursor daily_close duration break =
     (if 0 < duration \<and> 0 \<le> break \<and> cursor + duration \<le> daily_close
      then (cursor, cursor + duration)
             # spec_day_slots (cursor + (duration + break)) daily_close duration break
      else [])"
  by pat_completeness auto
termination
  by (relation "measure (\<lambda>(cursor, daily_close, duration, break). nat (daily_close - cursor))") auto

declare spec_day_slots.simps [simp del]

text \<open>The number of slots that fit into one day, in closed form.\<close>

definition spec_slots_per_day :: "int \<Rightarrow> int \<Rightarrow> int \<Rightarrow> int \<Rightarrow> nat" where
  "spec_slots_per_day daily_open daily_close duration break =
     (if daily_close - daily_open < duration then 0
      else nat ((daily_close - daily_open - duration) div (duration + break)) + 1)"

text \<open>The calendar days of the request that are not excluded, in order.\<close>

definition spec_days :: "TimeSlotBulkCreate \<Rightarrow> int list" where
  "spec_days r =
     filter (\<lambda>d. weekday d \<notin> set (exclude_days r))
       [date_of (start_date r)..date_of (end_date r)]"

text \<open>
  The grid of drafts \<open>(court, start, end)\<close>: for each day that is not excluded, for each
  court, the walk of that day.
\<close>

definition spec_grid :: "TimeSlotBulkCreate \<Rightarrow> int \<Rightarrow> int \<Rightarrow> (int \<times> int \<times> int) list" where
  "spec_grid r daily_open daily_close =
     concat (map (\<lambda>d.
        concat (map (\<lambda>c.
           map (Pair c)
             (spec_day_slots (combine d daily_open) (combine d daily_close)
                (minutes (slot_duration_minutes r)) (minutes (break_duration_minutes r))))
          (court_ids r)))
       (spec_days r))"

text \<open>
  Persisting a list of drafts in order, each as an available slot with no match, stopping
  at the first insert the store refuses; and the rows that doing so creates when no insert
  is refused, with ids from \<open>n\<close> on.
\<close>

fun persist_drafts ::
  "int \<Rightarrow> store \<Rightarrow> TimeSlot list \<Rightarrow> (int \<times> int \<times> int) list \<Rightarrow> (TimeSlot list) result" where
  "persist_drafts tid s created [] = (Inr created, s)"
| "persist_drafts tid s created ((c, a, b) # rest) =
     (case insert_time_slot s
             \<lparr>ins_tournament_id = tid, ins_court_id = c, ins_start_time = a,
              ins_end_time = b, ins_is_available = True, ins_match_id = None\<rparr> of
        (Inl e, s') \<Rightarrow> (Inl e, s')
      | (Inr row, s') \<Rightarrow> persist_drafts tid s' (created @ [row]) rest)"

fun draft_rows :: "int \<Rightarrow> int \<Rightarrow> (int \<times> int \<times> int) list \<Rightarrow> TimeSlot list" where
  "draft_rows tid n [] = []"
| "draft_rows tid n ((c, a, b) # rest) =
     \<lparr>slot_id = n, slot_tournament_id = tid, slot_court_id = c, slot_start_time = a,
      slot_end_time = b, slot_is_available = True, slot_match_id = None\<rparr>
       # draft_rows tid (n + 1) rest"

text \<open>
  A store with tournament 1, courts 7 and 8 and no slots, and two bulk requests: 09:00 to
  12:00 on 1970-01-01 for court 7 with slots of 90 minutes and breaks of 15, and 09:00 to
  12:00 on the three days from 1970-01-01 (a Thursday) for courts 7 and 8 with slots of 60
  minutes, no break, Saturdays excluded.
\<close>

definition ex_empty_store :: store where
  "ex_empty_store = \<lparr>tournaments = [1], courts = [7, 8], matches = [], referees = [],
     referees_x_tournaments = [], referees_x_matches = [], time_slots = [],
     time_slots_id_seq = 1\<rparr>"

definition ex_bulk_request_90 :: TimeSlotBulkCreate where
  "ex_bulk_request_90 = \<lparr>bulk_tournament_id = 1, court_ids = [7], start_date = 0,
     end_date = 0, slot_duration_minutes = 90, break_duration_minutes = 15,
     daily_start_time = ''09:00'', daily_end_time = ''12:00'', exclude_days = []\<rparr>"

definition ex_bulk_request_grid :: TimeSlotBulkCreate where
  "ex_bulk_request_grid = \<lparr>bulk_tournament_id = 1, court_ids = [7, 8], start_date = 0,
     end_date = 176400000000, slot_duration_minutes = 60, break_duration_minutes = 0,
     daily_start_time = ''09:00'', daily_end_time = ''12:00'', exclude_days = [5]\<rparr>"

text \<open>
  A bulk request whose break of \<open>10^10\<close> minutes carries the cursor past the year 9999:
  court 7 on 1970-01-01, 09:00 to 12:00 in slots of 60 minutes.
\<close>

definition ex_bulk_request_far :: TimeSlotBulkCreate where
  "ex_bulk_request_far = \<lparr>bulk_tournament_id = 1, court_ids = [7], start_date = 0,
     end_date = 0, slot_duration_minutes = 60, break_duration_minutes = 10000000000,
     daily_start_time = ''09:00'', daily_end_time = ''12:00'', exclude_days = []\<rparr>"

text \<open>
  A bulk request for court 7 on 1970-01-01, 09:30 to 11:00 in slots of 60 minutes, and the
  row and store it leaves when run on the example store, whose court 7 is taken from 10:00
  to 11:00.
\<close>

definition ex_bulk_request :: TimeSlotBulkCreate where
  "ex_bulk_request = \<lparr>bulk_tournament_id = 1, court_ids = [7], start_date = 0,
     end_date = 0, slot_duration_minutes = 60, break_duration_minutes = 5,
     daily_start_time = ''09:30'', daily_end_time = ''11:00'', exclude_days = []\<rparr>"

definition ex_slot_bulk :: TimeSlot where
  "ex_slot_bulk = \<lparr>slot_id = 2, slot_tournament_id = 1, slot_court_id = 7,
     slot_start_time = 34200000000, slot_end_time = 37800000000,
     slot_is_available = True, slot_match_id = None\<rparr>"

definition ex_store_bulk :: store where
  "ex_store_bulk = ex_store\<lparr>time_slots := [ex_slot, ex_slot_bulk], time_slots_id_seq := 3\<rparr>"

lemmas strptime_defs = strptime_HM_def H_alternatives_def match_colon_M_def is_digit_def
  digit_value_def minutes_def

section \<open>Theorems\<close>

text \<open>
  C1. In a store whose slot ids come from the sequence (none is \<open>0\<close>), the conflict
  checker returns exactly the persisted slots of the same tournament and court, other than
  the excluded slot when one is supplied, whose interval overlaps the proposal under strict
  comparison; a returned slot never ends at the proposed start nor starts at the proposed
  end.
\<close>

theorem check_slot_conflicts_exact:
  assumes "\<forall>row \<in> set (time_slots s). slot_id row \<noteq> 0"
  shows "check_slot_conflicts s tid cid start_time end_time exclude =
           filter (\<lambda>row. slot_tournament_id row = tid \<and> slot_court_id row = cid \<and>
                          Some (slot_id row) \<noteq> exclude \<and>
                          spec_overlaps (slot_start_time row) (slot_end_time row) start_time end_time)
                  (time_slots s)
         \<and> (\<forall>row \<in> set (check_slot_conflicts s tid cid start_time end_time exclude).
               slot_start_time row < end_time \<and> slot_end_time row > start_time \<and>
               slot_end_time row \<noteq> start_time \<and> slot_start_time row \<noteq> end_time)"
proof -
  have ex: "(if truthy exclude then Some (slot_id row) \<noteq> exclude else True)
              = (Some (slot_id row) \<noteq> exclude)"
    if "row \<in> set (time_slots s)" for row
    using that assms by (cases exclude) auto
  have "check_slot_conflicts s tid cid start_time end_time exclude =
           filter (\<lambda>row. slot_tournament_id row = tid \<and> slot_court_id row = cid \<and>
                          Some (slot_id row) \<noteq> exclude \<and>
                          spec_overlaps (slot_start_time row) (slot_end_time row) start_time end_time)
                  (time_slots s)"
    unfolding check_slot_conflicts_def spec_overlaps_def
    by (rule filter_cong) (auto simp: ex)
  moreover have "\<forall>row \<in> set (check_slot_conflicts s tid cid start_time end_time exclude).
               slot_start_time row < end_time \<and> slot_end_time row > start_time \<and>
               slot_end_time row \<noteq> start_time \<and> slot_start_time row \<noteq> end_time"
    by (auto simp: check_slot_conflicts_def)
  ultimately show ?thesis by blast
qed

theorem check_slot_conflicts_exact_witness:
  "check_slot_conflicts ex_store 1 7 37800000000 41400000000 (Some 5) = [ex_slot] \<and>
   check_slot_conflicts ex_store 1 7 37800000000 41400000000 (Some 1) = [] \<and>
   check_slot_conflicts ex_store 1 7 39600000000 43200000000 None = [] \<and>
   check_slot_conflicts ex_store 1 7 32400000000 36000000000 None = []"
  using check_slot_conflicts_exact [of ex_store 1 7 37800000000 41400000000 "Some 5"]
        check_slot_conflicts_exact [of ex_store 1 7 37800000000 41400000000 "Some 1"]
        check_slot_conflicts_exact [of ex_store 1 7 39600000000 43200000000 None]
        check_slot_conflicts_exact [of ex_store 1 7 32400000000 36000000000 None]
  by (simp add: ex_store_def ex_slot_def spec_overlaps_def)

text \<open>
  C2. A candidate referee is rejected exactly when one of their assignments is linked to a
  match with \<open>start < end_time\<close> and \<open>start + duration + margin > start_time\<close>; they are
  accepted exactly when no assignment-linked match has a conflict window overlapping the
  proposal. The window starts at the match's start: the margin only extends its end.
\<close>

theorem referee_rejected_iff_margin_overlap:
  assumes "referee \<in> set (candidate_referees s tid start_time end_time)"
  shows "(referee \<notin> set (get_available_referees_for_time_slot s tid start_time end_time)) =
           (\<exists>rxm \<in> set (referees_x_matches s). \<exists>m \<in> set (matches s).
              asg_referee_id rxm = ref_id referee \<and> asg_match_id rxm = m_id m \<and>
              m_start_time m < end_time \<and>
              m_start_time m + minutes (m_duration_minutes m + m_margin_minutes m) > start_time)
         \<and> (referee \<in> set (get_available_referees_for_time_slot s tid start_time end_time)) =
           (\<forall>rxm \<in> set (referees_x_matches s). \<forall>m \<in> set (matches s).
              asg_referee_id rxm = ref_id referee \<and> asg_match_id rxm = m_id m \<longrightarrow>
              \<not> spec_overlaps (fst (spec_conflict_window m)) (snd (spec_conflict_window m))
                   start_time end_time)
         \<and> (\<forall>m. fst (spec_conflict_window m) = m_start_time m)"
proof -
  have cnt: "(conflict_count s (ref_id referee) start_time end_time = 0) =
        (\<not> (\<exists>rxm \<in> set (referees_x_matches s). \<exists>m \<in> set (matches s).
              asg_referee_id rxm = ref_id referee \<and> asg_match_id rxm = m_id m \<and>
              m_start_time m < end_time \<and>
              m_start_time m + minutes (m_duration_minutes m + m_margin_minutes m) > start_time))"
    by (auto simp: conflict_count_def)
  have mem: "(referee \<in> set (get_available_referees_for_time_slot s tid start_time end_time)) =
        (conflict_count s (ref_id referee) start_time end_time = 0)"
    using assms by (simp add: get_available_referees_for_time_slot_def)
  show ?thesis
    unfolding mem cnt by (auto simp: spec_overlaps_def spec_conflict_window_def)
qed

theorem referee_rejected_iff_margin_overlap_witness:
  "ex_referee_b \<in> set (candidate_referees ex_referee_store 1 36000000000 39600000000) \<and>
   ex_referee_b \<notin> set (get_available_referees_for_time_slot ex_referee_store 1 36000000000 39600000000) \<and>
   ex_referee_b \<in> set (candidate_referees ex_referee_store 1 36300000000 39900000000) \<and>
   ex_referee_b \<in> set (get_available_referees_for_time_slot ex_referee_store 1 36300000000 39900000000)"
proof -
  have c1: "ex_referee_b \<in> set (candidate_referees ex_referee_store 1 36000000000 39600000000)"
    by (simp add: candidate_referees_def ex_referee_defs)
  have c2: "ex_referee_b \<in> set (candidate_referees ex_referee_store 1 36300000000 39900000000)"
    by (simp add: candidate_referees_def ex_referee_defs)
  show ?thesis
    using c1 c2 referee_rejected_iff_margin_overlap [OF c1] referee_rejected_iff_margin_overlap [OF c2]
    by (simp add: ex_referee_defs minutes_def spec_overlaps_def spec_conflict_window_def)
qed

text \<open>
  C3. The candidates are exactly the active referees with an availability row of the
  tournament whose window contains the proposal (\<open>available_from \<le> start\<close> and
  \<open>available_to \<ge> end\<close>); the resolver returns candidates only, and a referee none of
  whose rows of the tournament contains the proposal is not returned.
\<close>

theorem candidate_set_is_containment:
  "set (candidate_referees s tid start_time end_time) =
     {referee \<in> set (referees s). ref_active referee \<and>
        (\<exists>rxt \<in> set (referees_x_tournaments s).
           avail_referee_id rxt = ref_id referee \<and> avail_tournament_id rxt = tid \<and>
           spec_contains (available_from rxt) (available_to rxt) start_time end_time)}
   \<and> set (get_available_referees_for_time_slot s tid start_time end_time)
        \<subseteq> set (candidate_referees s tid start_time end_time)
   \<and> ((\<forall>rxt \<in> set (referees_x_tournaments s).
          avail_referee_id rxt = ref_id referee \<and> avail_tournament_id rxt = tid \<longrightarrow>
          \<not> (available_from rxt \<le> start_time \<and> available_to rxt \<ge> end_time))
        \<longrightarrow> referee \<notin> set (candidate_referees s tid start_time end_time)
          \<and> referee \<notin> set (get_available_referees_for_time_slot s tid start_time end_time))"
  by (auto simp: candidate_referees_def get_available_referees_for_time_slot_def spec_contains_def)

theorem candidate_set_is_containment_witness:
  "set (candidate_referees ex_referee_store 1 36000000000 39600000000) = {ex_referee_a, ex_referee_b} \<and>
   spec_overlaps 32400000000 61200000000 28800000000 34200000000 \<and>
   ex_referee_a \<notin> set (candidate_referees ex_referee_store 1 28800000000 34200000000) \<and>
   ex_referee_a \<notin> set (get_available_referees_for_time_slot ex_referee_store 1 28800000000 34200000000)"
proof -
  have a: "set (candidate_referees ex_referee_store 1 36000000000 39600000000) = {ex_referee_a, ex_referee_b}"
    by (simp add: candidate_referees_def ex_referee_defs)
  have b: "\<forall>rxt \<in> set (referees_x_tournaments ex_referee_store).
          avail_referee_id rxt = ref_id ex_referee_a \<and> avail_tournament_id rxt = 1 \<longrightarrow>
          \<not> (available_from rxt \<le> 28800000000 \<and> available_to rxt \<ge> 34200000000)"
    by (simp add: ex_referee_defs)
  have c: "ex_referee_a \<notin> set (candidate_referees ex_referee_store 1 28800000000 34200000000) \<and>
     ex_referee_a \<notin> set (get_available_referees_for_time_slot ex_referee_store 1 28800000000 34200000000)"
    using b candidate_set_is_containment [of ex_referee_store 1 28800000000 34200000000 ex_referee_a]
    by blast
  have d: "spec_overlaps 32400000000 61200000000 28800000000 34200000000"
    by (simp add: spec_overlaps_def)
  show ?thesis
    using a c d by blast
qed

subsection \<open>Assigning and releasing a slot\<close>

lemma find_updated_row:
  assumes "\<And>row. slot_id (f row) = slot_id row"
  shows "find (\<lambda>row. slot_id row = sid) (map (\<lambda>row. if slot_id row = sid then f row else row) rows)
           = map_option f (find (\<lambda>row. slot_id row = sid) rows)"
  using assms by (induction rows) auto

lemma slot_id_apply_updates [simp]: "slot_id (apply_updates u row) = slot_id row"
  by (simp add: apply_updates_def)

lemma find_Some_mem: "find P xs = Some x \<Longrightarrow> x \<in> set xs \<and> P x"
  by (induction xs) (auto split: if_splits)

lemma assign_match_to_slot_result:
  assumes "get_time_slot_by_id s sid = Some slot"
  shows "assign_match_to_slot s sid mid =
           (if mid \<in> set (map m_id (matches s))
            then (Inr (Some (slot\<lparr>slot_is_available := False, slot_match_id := Some mid\<rparr>)),
                  s\<lparr>time_slots := map (\<lambda>row. if slot_id row = sid
                         then row\<lparr>slot_is_available := False, slot_match_id := Some mid\<rparr>
                         else row) (time_slots s)\<rparr>)
            else (Inl ForeignKeyViolationError, s))"
proof -
  have ex: "\<exists>row \<in> set (time_slots s). slot_id row = sid"
    using assms find_Some_mem unfolding get_time_slot_by_id_def by fastforce
  have ap: "apply_updates (no_updates\<lparr>upd_match_id := Some (Some mid), upd_is_available := Some False\<rparr>)
              = (\<lambda>row. row\<lparr>slot_is_available := False, slot_match_id := Some mid\<rparr>)"
    by (rule ext) (simp add: apply_updates_def no_updates_def)
  have fd: "find (\<lambda>row. slot_id row = sid)
              (map (\<lambda>row. if slot_id row = sid
                     then row\<lparr>slot_is_available := False, slot_match_id := Some mid\<rparr> else row)
                 (time_slots s))
            = Some (slot\<lparr>slot_is_available := False, slot_match_id := Some mid\<rparr>)"
    using assms by (simp add: find_updated_row get_time_slot_by_id_def)
  show ?thesis
    using ex unfolding assign_match_to_slot_def update_time_slot_def Let_def ap fd
    by (simp add: no_updates_def)
qed

lemma release_slot_result:
  assumes "get_time_slot_by_id s sid = Some slot"
  shows "release_slot s sid =
           (Inr (Some (slot\<lparr>slot_is_available := True, slot_match_id := None\<rparr>)),
            s\<lparr>time_slots := map (\<lambda>row. if slot_id row = sid
                   then row\<lparr>slot_is_available := True, slot_match_id := None\<rparr>
                   else row) (time_slots s)\<rparr>)"
proof -
  have ap: "apply_updates (no_updates\<lparr>upd_match_id := Some None, upd_is_available := Some True\<rparr>)
              = (\<lambda>row. row\<lparr>slot_is_available := True, slot_match_id := None\<rparr>)"
    by (rule ext) (simp add: apply_updates_def no_updates_def)
  have fd: "find (\<lambda>row. slot_id row = sid)
              (map (\<lambda>row. if slot_id row = sid
                     then row\<lparr>slot_is_available := True, slot_match_id := None\<rparr> else row)
                 (time_slots s))
            = Some (slot\<lparr>slot_is_available := True, slot_match_id := None\<rparr>)"
    using assms by (simp add: find_updated_row get_time_slot_by_id_def)
  show ?thesis
    unfolding release_slot_def update_time_slot_def Let_def ap fd
    by (simp add: no_updates_def)
qed


text \<open>
  C7. For a slot the store holds (whose \<open>match_id\<close>, if set, is a generated id and so not
  \<open>0\<close>): assigning a match fails with status 400 when the slot is unavailable or holds a
  match; every failure of the assignment leaves the store as it was; a successful
  assignment sets \<open>match_id\<close> and clears \<open>is_available\<close> in one update. Releasing fails
  with status 400 when no match is assigned, and otherwise clears \<open>match_id\<close> and sets
  \<open>is_available\<close> in one update.
\<close>

theorem assign_release_invalid_state:
  assumes "get_time_slot_by_id s sid = Some slot"
      and "slot_match_id slot \<noteq> Some 0"
  shows "(\<not> slot_is_available slot \<or> slot_match_id slot \<noteq> None \<longrightarrow>
            assign_match_to_time_slot s sid mid = (Inl (HTTPException HTTP_400_BAD_REQUEST), s))
       \<and> (\<forall>e s'. assign_match_to_time_slot s sid mid = (Inl e, s') \<longrightarrow> s' = s)
       \<and> (slot_is_available slot \<and> slot_match_id slot = None \<and> mid \<in> set (map m_id (matches s)) \<longrightarrow>
            assign_match_to_time_slot s sid mid =
              (Inr (Some (slot\<lparr>slot_is_available := False, slot_match_id := Some mid\<rparr>)),
               s\<lparr>time_slots := map (\<lambda>row. if slot_id row = sid
                      then row\<lparr>slot_is_available := False, slot_match_id := Some mid\<rparr>
                      else row) (time_slots s)\<rparr>))
       \<and> (\<forall>r s'. assign_match_to_time_slot s sid mid = (Inr r, s') \<longrightarrow>
            r = Some (slot\<lparr>slot_is_available := False, slot_match_id := Some mid\<rparr>) \<and>
            get_time_slot_by_id s' sid = r)
       \<and> (slot_match_id slot = None \<longrightarrow>
            release_time_slot s sid = (Inl (HTTPException HTTP_400_BAD_REQUEST), s))
       \<and> (slot_match_id slot \<noteq> None \<longrightarrow>
            release_time_slot s sid =
              (Inr (Some (slot\<lparr>slot_is_available := True, slot_match_id := None\<rparr>)),
               s\<lparr>time_slots := map (\<lambda>row. if slot_id row = sid
                      then row\<lparr>slot_is_available := True, slot_match_id := None\<rparr>
                      else row) (time_slots s)\<rparr>))"
proof -
  let ?s' = "s\<lparr>time_slots := map (\<lambda>row. if slot_id row = sid
                      then row\<lparr>slot_is_available := False, slot_match_id := Some mid\<rparr>
                      else row) (time_slots s)\<rparr>"
  let ?row = "slot\<lparr>slot_is_available := False, slot_match_id := Some mid\<rparr>"
  have tr: "truthy (slot_match_id slot) = (slot_match_id slot \<noteq> None)"
    using assms(2) by (cases "slot_match_id slot") auto
  have fd: "get_time_slot_by_id ?s' sid = Some ?row"
    using assms(1) by (simp add: find_updated_row get_time_slot_by_id_def)
  have route: "assign_match_to_time_slot s sid mid =
      (if \<not> slot_is_available slot \<or> slot_match_id slot \<noteq> None
       then (Inl (HTTPException HTTP_400_BAD_REQUEST), s)
       else if mid \<in> set (map m_id (matches s)) then (Inr (Some ?row), ?s')
       else (Inl ForeignKeyViolationError, s))"
    by (simp add: assign_match_to_time_slot_def assms(1) tr assign_match_to_slot_result [OF assms(1)])
  have rel: "release_time_slot s sid =
      (if slot_match_id slot = None then (Inl (HTTPException HTTP_400_BAD_REQUEST), s)
       else (Inr (Some (slot\<lparr>slot_is_available := True, slot_match_id := None\<rparr>)),
               s\<lparr>time_slots := map (\<lambda>row. if slot_id row = sid
                      then row\<lparr>slot_is_available := True, slot_match_id := None\<rparr>
                      else row) (time_slots s)\<rparr>))"
    by (simp add: release_time_slot_def assms(1) tr release_slot_result [OF assms(1)])
  have c1: "\<not> slot_is_available slot \<or> slot_match_id slot \<noteq> None \<longrightarrow>
            assign_match_to_time_slot s sid mid = (Inl (HTTPException HTTP_400_BAD_REQUEST), s)"
    unfolding route by simp
  have c2: "\<forall>e s'. assign_match_to_time_slot s sid mid = (Inl e, s') \<longrightarrow> s' = s"
    unfolding route by (simp split: if_splits)
  have c3: "slot_is_available slot \<and> slot_match_id slot = None \<and> mid \<in> set (map m_id (matches s)) \<longrightarrow>
            assign_match_to_time_slot s sid mid = (Inr (Some ?row), ?s')"
    unfolding route by simp
  have c4: "\<forall>r s'. assign_match_to_time_slot s sid mid = (Inr r, s') \<longrightarrow>
            r = Some ?row \<and> get_time_slot_by_id s' sid = r"
    unfolding route using fd by (simp split: if_splits)
  have c5: "slot_match_id slot = None \<longrightarrow>
            release_time_slot s sid = (Inl (HTTPException HTTP_400_BAD_REQUEST), s)"
    unfolding rel by simp
  have c6: "slot_match_id slot \<noteq> None \<longrightarrow>
            release_time_slot s sid =
              (Inr (Some (slot\<lparr>slot_is_available := True, slot_match_id := None\<rparr>)),
               s\<lparr>time_slots := map (\<lambda>row. if slot_id row = sid
                      then row\<lparr>slot_is_available := True, slot_match_id := None\<rparr>
                      else row) (time_slots s)\<rparr>)"
    unfolding rel by simp
  from c1 c2 c3 c4 c5 c6 show ?thesis by blast
qed



theorem assign_release_invalid_state_witness:
  "assign_match_to_time_slot ex_store 1 1 = (Inr (Some ex_slot_assigned), ex_store_assigned) \<and>
   assign_match_to_time_slot ex_store_assigned 1 1 = (Inl (HTTPException 400), ex_store_assigned) \<and>
   release_time_slot ex_store 1 = (Inl (HTTPException 400), ex_store) \<and>
   release_time_slot ex_store_assigned 1 = (Inr (Some ex_slot), ex_store)"
proof -
  have a: "get_time_slot_by_id ex_store 1 = Some ex_slot"
    by (simp add: get_time_slot_by_id_def ex_slot_defs)
  have b: "get_time_slot_by_id ex_store_assigned 1 = Some ex_slot_assigned"
    by (simp add: get_time_slot_by_id_def ex_slot_defs)
  have a0: "slot_match_id ex_slot \<noteq> Some 0" by (simp add: ex_slot_defs)
  have b0: "slot_match_id ex_slot_assigned \<noteq> Some 0" by (simp add: ex_slot_defs)
  note ta = assign_release_invalid_state [OF a a0, of 1]
  note tb = assign_release_invalid_state [OF b b0, of 1]
  have 1: "assign_match_to_time_slot ex_store 1 1 = (Inr (Some ex_slot_assigned), ex_store_assigned)"
    using ta [THEN conjunct2, THEN conjunct2, THEN conjunct1] by (simp add: ex_slot_defs)
  have 2: "assign_match_to_time_slot ex_store_assigned 1 1 = (Inl (HTTPException 400), ex_store_assigned)"
    using tb [THEN conjunct1] by (simp add: ex_slot_defs HTTP_400_BAD_REQUEST_def)
  have 3: "release_time_slot ex_store 1 = (Inl (HTTPException 400), ex_store)"
    using ta [THEN conjunct2, THEN conjunct2, THEN conjunct2, THEN conjunct2, THEN conjunct1]
    by (simp add: ex_slot_defs HTTP_400_BAD_REQUEST_def)
  have 4: "release_time_slot ex_store_assigned 1 = (Inr (Some ex_slot), ex_store)"
    using tb [THEN conjunct2, THEN conjunct2, THEN conjunct2, THEN conjunct2, THEN conjunct2]
    by (simp add: ex_slot_defs)
  from 1 2 3 4 show ?thesis by blast
qed

subsection \<open>Creating a single slot\<close>

lemma find_append_new:
  assumes "\<forall>x \<in> set xs. \<not> P x" and "P y"
  shows "find P (xs @ [y]) = Some y"
  using assms by (induction xs) auto

lemma insert_time_slot_Inr:
  assumes "insert_time_slot s v = (Inr row, s')"
  shows "row = \<lparr>slot_id = time_slots_id_seq s,
                 slot_tournament_id = ins_tournament_id v,
                 slot_court_id = ins_court_id v,
                 slot_start_time = ins_start_time v,
                 slot_end_time = ins_end_time v,
                 slot_is_available = ins_is_available v,
                 slot_match_id = ins_match_id v\<rparr>"
    and "s' = s\<lparr>time_slots_id_seq := time_slots_id_seq s + 1, time_slots := time_slots s @ [row]\<rparr>"
    and "\<forall>old \<in> set (time_slots s). slot_id old \<noteq> slot_id row"
  using assms unfolding insert_time_slot_def Let_def
  by (auto split: if_splits)

lemma create_new_time_slot_Inr:
  assumes "create_new_time_slot s tid body = (Inr row, s')"
  shows "create_time_slot s tid body = (Inr row, s')"
  using assms unfolding create_new_time_slot_def Let_def
  by (simp split: if_splits)

text \<open>
  C10. A slot persisted by a single-slot create, through the route or the insert it calls,
  has \<open>match_id = None\<close> and the \<open>is_available\<close> of the request body. When the body says
  unavailable, the new slot is unavailable and holds no match: every assignment to it is
  rejected with status 400, and so is its release.
\<close>

theorem created_slot_has_no_match:
  assumes "create_time_slot s tid body = (Inr row, s') \<or>
           create_new_time_slot s tid body = (Inr row, s')"
  shows "slot_match_id row = None
       \<and> slot_is_available row = body_is_available body
       \<and> get_time_slot_by_id s' (slot_id row) = Some row
       \<and> (\<not> body_is_available body \<longrightarrow>
            (\<forall>m. assign_match_to_time_slot s' (slot_id row) m
                    = (Inl (HTTPException HTTP_400_BAD_REQUEST), s')) \<and>
            release_time_slot s' (slot_id row) = (Inl (HTTPException HTTP_400_BAD_REQUEST), s'))"
proof -
  have cr: "create_time_slot s tid body = (Inr row, s')"
    using assms create_new_time_slot_Inr by blast
  note ins = insert_time_slot_Inr [OF cr [unfolded create_time_slot_def]]
  have m: "slot_match_id row = None" and a: "slot_is_available row = body_is_available body"
    using ins(1) by simp_all
  have ts: "time_slots s' = time_slots s @ [row]"
    using ins(2) by simp
  have g: "get_time_slot_by_id s' (slot_id row) = Some row"
    unfolding get_time_slot_by_id_def ts
    by (rule find_append_new) (use ins(3) in auto)
  have r: "\<not> body_is_available body \<longrightarrow>
            (\<forall>m. assign_match_to_time_slot s' (slot_id row) m
                    = (Inl (HTTPException HTTP_400_BAD_REQUEST), s')) \<and>
            release_time_slot s' (slot_id row) = (Inl (HTTPException HTTP_400_BAD_REQUEST), s')"
    by (simp add: assign_match_to_time_slot_def release_time_slot_def g m a)
  from m a g r show ?thesis by blast
qed


theorem created_slot_has_no_match_witness:
  "create_new_time_slot ex_store 1 ex_body_unavailable = (Inr ex_slot_created, ex_store_created) \<and>
   slot_match_id ex_slot_created = None \<and>
   \<not> slot_is_available ex_slot_created \<and>
   assign_match_to_time_slot ex_store_created 2 1 = (Inl (HTTPException 400), ex_store_created) \<and>
   release_time_slot ex_store_created 2 = (Inl (HTTPException 400), ex_store_created)"
proof -
  have c: "create_new_time_slot ex_store 1 ex_body_unavailable = (Inr ex_slot_created, ex_store_created)"
    by (simp add: create_new_time_slot_def check_slot_conflicts_def create_time_slot_def
          insert_time_slot_def Let_def ex_slot_defs ex_body_unavailable_def ex_slot_created_def
          ex_store_created_def)
  note t = created_slot_has_no_match [OF disjI2, OF c]
  have n: "\<not> body_is_available ex_body_unavailable"
    by (simp add: ex_body_unavailable_def)
  have i: "slot_id ex_slot_created = 2"
    by (simp add: ex_slot_created_def)
  have 1: "slot_match_id ex_slot_created = None"
    using t [THEN conjunct1] .
  have 2: "\<not> slot_is_available ex_slot_created"
    using t [THEN conjunct2, THEN conjunct1] n by simp
  have 3: "assign_match_to_time_slot ex_store_created 2 1 = (Inl (HTTPException 400), ex_store_created)"
    using t [THEN conjunct2, THEN conjunct2, THEN conjunct2, THEN mp, OF n, THEN conjunct1, THEN spec, of 1]
    by (simp add: i HTTP_400_BAD_REQUEST_def)
  have 4: "release_time_slot ex_store_created 2 = (Inl (HTTPException 400), ex_store_created)"
    using t [THEN conjunct2, THEN conjunct2, THEN conjunct2, THEN mp, OF n, THEN conjunct2]
    by (simp add: i HTTP_400_BAD_REQUEST_def)
  from c 1 2 3 4 show ?thesis by blast
qed

subsection \<open>Referee assignments\<close>

lemma get_referee_by_id_None:
  "(get_referee_by_id s rid = None) = (rid \<notin> set (map ref_id (referees s)))"
  by (auto simp: get_referee_by_id_def find_None_iff)

text \<open>
  C8. \<open>assign_referee\<close> fails with status 404 when the referee does not exist; for an
  existing referee it fails with status 400 when the role is not one of main, assistant,
  line_judge, video_referee; for an existing referee and a valid role it fails with the
  store's duplicate-key error when the (referee, match, role) triple is already a row, and
  otherwise (the match existing) it succeeds and appends the row, whatever other roles the
  pair already has.
\<close>

theorem assign_referee_failures:
  "(get_referee_by_id s rid = None \<longrightarrow>
      assign_referee s mid rid role confirmed notes = (Inl (HTTPException HTTP_404_NOT_FOUND), s))
   \<and> (get_referee_by_id s rid \<noteq> None \<and> role \<notin> set valid_roles \<longrightarrow>
      assign_referee s mid rid role confirmed notes = (Inl (HTTPException HTTP_400_BAD_REQUEST), s))
   \<and> (get_referee_by_id s rid \<noteq> None \<and> role \<in> set valid_roles \<and>
      (\<exists>row \<in> set (referees_x_matches s).
         asg_referee_id row = rid \<and> asg_match_id row = mid \<and> asg_role row = role) \<longrightarrow>
      assign_referee s mid rid role confirmed notes = (Inl UniqueViolationError, s))
   \<and> (get_referee_by_id s rid \<noteq> None \<and> role \<in> set valid_roles \<and>
      mid \<in> set (map m_id (matches s)) \<and>
      (\<forall>row \<in> set (referees_x_matches s).
         asg_referee_id row = rid \<and> asg_match_id row = mid \<longrightarrow> asg_role row \<noteq> role) \<longrightarrow>
      assign_referee s mid rid role confirmed notes =
        (Inr \<lparr>asg_referee_id = rid, asg_match_id = mid, asg_role = role,
              asg_confirmed = confirmed, asg_notes = notes\<rparr>,
         s\<lparr>referees_x_matches := referees_x_matches s @
              [\<lparr>asg_referee_id = rid, asg_match_id = mid, asg_role = role,
                asg_confirmed = confirmed, asg_notes = notes\<rparr>]\<rparr>))
   \<and> set valid_roles = {''main'', ''assistant'', ''line_judge'', ''video_referee''}"
proof -
  have c1: "get_referee_by_id s rid = None \<longrightarrow>
      assign_referee s mid rid role confirmed notes = (Inl (HTTPException HTTP_404_NOT_FOUND), s)"
    by (simp add: assign_referee_def)
  have c2: "get_referee_by_id s rid \<noteq> None \<and> role \<notin> set valid_roles \<longrightarrow>
      assign_referee s mid rid role confirmed notes = (Inl (HTTPException HTTP_400_BAD_REQUEST), s)"
    by (auto simp: assign_referee_def)
  have c3: "get_referee_by_id s rid \<noteq> None \<and> role \<in> set valid_roles \<and>
      (\<exists>row \<in> set (referees_x_matches s).
         asg_referee_id row = rid \<and> asg_match_id row = mid \<and> asg_role row = role) \<longrightarrow>
      assign_referee s mid rid role confirmed notes = (Inl UniqueViolationError, s)"
    by (auto simp: assign_referee_def assign_referee_to_match_def)
  have c4: "get_referee_by_id s rid \<noteq> None \<and> role \<in> set valid_roles \<and>
      mid \<in> set (map m_id (matches s)) \<and>
      (\<forall>row \<in> set (referees_x_matches s).
         asg_referee_id row = rid \<and> asg_match_id row = mid \<longrightarrow> asg_role row \<noteq> role) \<longrightarrow>
      assign_referee s mid rid role confirmed notes =
        (Inr \<lparr>asg_referee_id = rid, asg_match_id = mid, asg_role = role,
              asg_confirmed = confirmed, asg_notes = notes\<rparr>,
         s\<lparr>referees_x_matches := referees_x_matches s @
              [\<lparr>asg_referee_id = rid, asg_match_id = mid, asg_role = role,
                asg_confirmed = confirmed, asg_notes = notes\<rparr>]\<rparr>)"
  proof (intro impI, elim conjE)
    assume r: "get_referee_by_id s rid \<noteq> None" and v: "role \<in> set valid_roles"
       and m: "mid \<in> set (map m_id (matches s))"
       and u: "\<forall>row \<in> set (referees_x_matches s).
                 asg_referee_id row = rid \<and> asg_match_id row = mid \<longrightarrow> asg_role row \<noteq> role"
    have fk: "rid \<in> set (map ref_id (referees s))"
      using r by (simp add: get_referee_by_id_None)
    have nu: "\<not> (\<exists>row \<in> set (referees_x_matches s).
            asg_referee_id row = rid \<and> asg_match_id row = mid \<and> asg_role row = role)"
      using u by blast
    obtain referee where g: "get_referee_by_id s rid = Some referee"
      using r by blast
    show "assign_referee s mid rid role confirmed notes =
        (Inr \<lparr>asg_referee_id = rid, asg_match_id = mid, asg_role = role,
              asg_confirmed = confirmed, asg_notes = notes\<rparr>,
         s\<lparr>referees_x_matches := referees_x_matches s @
              [\<lparr>asg_referee_id = rid, asg_match_id = mid, asg_role = role,
                asg_confirmed = confirmed, asg_notes = notes\<rparr>]\<rparr>)"
      unfolding assign_referee_def assign_referee_to_match_def g
      using v m fk nu by (simp add: Let_def)
  qed
  have c5: "set valid_roles = {''main'', ''assistant'', ''line_judge'', ''video_referee''}"
    by (simp add: valid_roles_def)
  from c1 c2 c3 c4 c5 show ?thesis by blast
qed

theorem assign_referee_failures_witness:
  "assign_referee ex_referee_store 1 99 ''main'' False None
     = (Inl (HTTPException 404), ex_referee_store) \<and>
   assign_referee ex_referee_store 1 2 ''umpire'' False None
     = (Inl (HTTPException 400), ex_referee_store) \<and>
   assign_referee ex_referee_store 1 2 ''main'' False None
     = (Inl UniqueViolationError, ex_referee_store) \<and>
   assign_referee ex_referee_store 1 2 ''assistant'' False None
     = (Inr ex_assignment_assistant, ex_referee_store_two_roles)"
proof -
  have g99: "get_referee_by_id ex_referee_store 99 = None"
    by (simp add: get_referee_by_id_def ex_referee_defs)
  have g2: "get_referee_by_id ex_referee_store 2 \<noteq> None"
    by (simp add: get_referee_by_id_def ex_referee_defs)
  have 1: "assign_referee ex_referee_store 1 99 ''main'' False None
     = (Inl (HTTPException 404), ex_referee_store)"
    using assign_referee_failures [of ex_referee_store 99 1 "''main''" False None,
            THEN conjunct1] g99
    by (simp add: HTTP_404_NOT_FOUND_def)
  have 2: "assign_referee ex_referee_store 1 2 ''umpire'' False None
     = (Inl (HTTPException 400), ex_referee_store)"
    using assign_referee_failures [of ex_referee_store 2 1 "''umpire''" False None,
            THEN conjunct2, THEN conjunct1] g2
    by (simp add: HTTP_400_BAD_REQUEST_def valid_roles_def)
  have 3: "assign_referee ex_referee_store 1 2 ''main'' False None
     = (Inl UniqueViolationError, ex_referee_store)"
    using assign_referee_failures [of ex_referee_store 2 1 "''main''" False None,
            THEN conjunct2, THEN conjunct2, THEN conjunct1] g2
    by (simp add: valid_roles_def ex_referee_defs)
  have 4: "assign_referee ex_referee_store 1 2 ''assistant'' False None
     = (Inr ex_assignment_assistant, ex_referee_store_two_roles)"
    using assign_referee_failures [of ex_referee_store 2 1 "''assistant''" False None,
            THEN conjunct2, THEN conjunct2, THEN conjunct2, THEN conjunct1] g2
    by (simp add: valid_roles_def ex_referee_defs ex_assignment_assistant_def
          ex_referee_store_two_roles_def)
  from 1 2 3 4 show ?thesis by blast
qed


lemma find_map_hit:
  assumes "\<And>x. hit (upd x) = hit x"
  shows "find hit (map (\<lambda>x. if hit x then upd x else x) xs) = map_option upd (find hit xs)"
  by (induction xs) (auto simp: assms)

lemma update_referee_assignment_store:
  "snd (update_referee_assignment s rid mid confirmed notes) =
     s\<lparr>referees_x_matches :=
         map (\<lambda>row. if asg_referee_id row = rid \<and> asg_match_id row = mid
                then row\<lparr>asg_confirmed := (case confirmed of None \<Rightarrow> asg_confirmed row | Some c \<Rightarrow> c),
                         asg_notes := (case notes of None \<Rightarrow> asg_notes row | Some n \<Rightarrow> Some n)\<rparr>
                else row)
           (referees_x_matches s)\<rparr>"
proof (cases "confirmed = None \<and> notes = None")
  case True
  then have c: "confirmed = None" and n: "notes = None" by simp_all
  show ?thesis
    unfolding c n by (simp add: update_referee_assignment_def cong: if_cong)
next
  case False
  then show ?thesis
    by (auto simp: update_referee_assignment_def Let_def)
qed

lemma update_referee_assignment_fst:
  "fst (update_referee_assignment s rid mid confirmed notes) =
     (if confirmed = None \<and> notes = None then None
      else map_option
             (\<lambda>row. row\<lparr>asg_confirmed := (case confirmed of None \<Rightarrow> asg_confirmed row | Some c \<Rightarrow> c),
                         asg_notes := (case notes of None \<Rightarrow> asg_notes row | Some n \<Rightarrow> Some n)\<rparr>)
             (find (\<lambda>row. asg_referee_id row = rid \<and> asg_match_id row = mid)
                (referees_x_matches s)))"
  by (simp add: update_referee_assignment_def Let_def find_map_hit)

lemma update_referee_assignment_found:
  "(fst (update_referee_assignment s rid mid confirmed notes) = None) =
     ((confirmed = None \<and> notes = None) \<or>
      (\<forall>row \<in> set (referees_x_matches s).
         \<not> (asg_referee_id row = rid \<and> asg_match_id row = mid)))"
  unfolding update_referee_assignment_fst by (auto simp: find_None_iff)


lemma update_referee_match_assignment_parts:
  "fst (update_referee_match_assignment s mid rid confirmed notes) =
     (case fst (update_referee_assignment s rid mid confirmed notes) of
        None \<Rightarrow> Inl (HTTPException HTTP_404_NOT_FOUND) | Some updated \<Rightarrow> Inr updated)"
  "snd (update_referee_match_assignment s mid rid confirmed notes) =
     snd (update_referee_assignment s rid mid confirmed notes)"
  by (simp_all add: update_referee_match_assignment_def split: prod.splits option.splits)

lemma map_no_hit:
  assumes "\<forall>x \<in> set xs. \<not> hit x"
  shows "map (\<lambda>x. if hit x then upd x else x) xs = xs"
  using assms by (induction xs) auto

text \<open>
  C9. \<open>update_referee_match_assignment\<close> fails with status 404 exactly when no field is
  supplied or no row has the (referee, match) pair, it fails in no other way, and a failure
  leaves the store as it was. It writes no other table and keeps the number and order of
  the assignment rows; in every row the referee, match and role are unchanged,
  \<open>confirmed\<close> changes only when it is supplied and the row has the pair, and so does
  \<open>notes\<close>. On success the returned row has the pair and is a row of the new table.
\<close>

theorem update_assignment_is_partial:
  "(fst (update_referee_match_assignment s mid rid confirmed notes)
      = Inl (HTTPException HTTP_404_NOT_FOUND))
     = ((confirmed = None \<and> notes = None) \<or>
        (\<forall>row \<in> set (referees_x_matches s).
           \<not> (asg_referee_id row = rid \<and> asg_match_id row = mid)))
   \<and> (\<forall>e. fst (update_referee_match_assignment s mid rid confirmed notes) = Inl e \<longrightarrow>
          e = HTTPException HTTP_404_NOT_FOUND \<and>
          snd (update_referee_match_assignment s mid rid confirmed notes) = s)
   \<and> (\<forall>row. fst (update_referee_match_assignment s mid rid confirmed notes) = Inr row \<longrightarrow>
          asg_referee_id row = rid \<and> asg_match_id row = mid \<and>
          row \<in> set (referees_x_matches
                      (snd (update_referee_match_assignment s mid rid confirmed notes))))
   \<and> snd (update_referee_match_assignment s mid rid confirmed notes)
       = s\<lparr>referees_x_matches :=
             referees_x_matches (snd (update_referee_match_assignment s mid rid confirmed notes))\<rparr>
   \<and> length (referees_x_matches (snd (update_referee_match_assignment s mid rid confirmed notes)))
       = length (referees_x_matches s)
   \<and> (\<forall>i < length (referees_x_matches s).
         asg_referee_id (referees_x_matches (snd (update_referee_match_assignment s mid rid confirmed notes)) ! i)
           = asg_referee_id (referees_x_matches s ! i) \<and>
         asg_match_id (referees_x_matches (snd (update_referee_match_assignment s mid rid confirmed notes)) ! i)
           = asg_match_id (referees_x_matches s ! i) \<and>
         asg_role (referees_x_matches (snd (update_referee_match_assignment s mid rid confirmed notes)) ! i)
           = asg_role (referees_x_matches s ! i) \<and>
         asg_confirmed (referees_x_matches (snd (update_referee_match_assignment s mid rid confirmed notes)) ! i)
           = (case confirmed of
                None \<Rightarrow> asg_confirmed (referees_x_matches s ! i)
              | Some c \<Rightarrow>
                  if asg_referee_id (referees_x_matches s ! i) = rid \<and>
                     asg_match_id (referees_x_matches s ! i) = mid
                  then c else asg_confirmed (referees_x_matches s ! i)) \<and>
         asg_notes (referees_x_matches (snd (update_referee_match_assignment s mid rid confirmed notes)) ! i)
           = (case notes of
                None \<Rightarrow> asg_notes (referees_x_matches s ! i)
              | Some n \<Rightarrow>
                  if asg_referee_id (referees_x_matches s ! i) = rid \<and>
                     asg_match_id (referees_x_matches s ! i) = mid
                  then Some n else asg_notes (referees_x_matches s ! i)))"
proof -
  let ?A = "update_referee_assignment s rid mid confirmed notes"
  let ?hit = "\<lambda>row. asg_referee_id row = rid \<and> asg_match_id row = mid"
  let ?upd = "\<lambda>row. row\<lparr>asg_confirmed := (case confirmed of None \<Rightarrow> asg_confirmed row | Some c \<Rightarrow> c),
                         asg_notes := (case notes of None \<Rightarrow> asg_notes row | Some n \<Rightarrow> Some n)\<rparr>"
  let ?rows' = "map (\<lambda>row. if ?hit row then ?upd row else row) (referees_x_matches s)"
  note parts = update_referee_match_assignment_parts [of s mid rid confirmed "notes"]
  have st: "snd ?A = s\<lparr>referees_x_matches := ?rows'\<rparr>"
    by (rule update_referee_assignment_store)
  have rows: "referees_x_matches (snd ?A) = ?rows'"
    unfolding st by simp
  have none: "(fst ?A = None) = ((confirmed = None \<and> notes = None) \<or>
        (\<forall>row \<in> set (referees_x_matches s). \<not> ?hit row))"
    by (rule update_referee_assignment_found)
  have c1: "(fst (update_referee_match_assignment s mid rid confirmed notes)
      = Inl (HTTPException HTTP_404_NOT_FOUND))
     = ((confirmed = None \<and> notes = None) \<or>
        (\<forall>row \<in> set (referees_x_matches s). \<not> ?hit row))"
    unfolding parts none [symmetric] by (simp split: option.splits)
  have unchanged: "snd ?A = s" if "fst ?A = None"
  proof (cases "confirmed = None \<and> notes = None")
    case True
    then show ?thesis by (simp add: update_referee_assignment_def)
  next
    case False
    with that none have "\<forall>row \<in> set (referees_x_matches s). \<not> ?hit row" by blast
    then have "?rows' = referees_x_matches s" by (rule map_no_hit)
    then show ?thesis unfolding st by simp
  qed
  have c2: "\<forall>e. fst (update_referee_match_assignment s mid rid confirmed notes) = Inl e \<longrightarrow>
          e = HTTPException HTTP_404_NOT_FOUND \<and>
          snd (update_referee_match_assignment s mid rid confirmed notes) = s"
    unfolding parts using unchanged by (auto split: option.splits)
  have found: "?hit row \<and> row \<in> set ?rows'" if "fst ?A = Some row" for row
  proof -
    have "find ?hit ?rows' = Some row"
      using that by (auto simp: update_referee_assignment_def Let_def split: if_splits)
    then show ?thesis
      using find_Some_mem [of ?hit ?rows' row] by blast
  qed
  have c3: "\<forall>row. fst (update_referee_match_assignment s mid rid confirmed notes) = Inr row \<longrightarrow>
          asg_referee_id row = rid \<and> asg_match_id row = mid \<and>
          row \<in> set (referees_x_matches
                      (snd (update_referee_match_assignment s mid rid confirmed notes)))"
    unfolding parts rows using found by (auto split: option.splits)
  have c4: "snd (update_referee_match_assignment s mid rid confirmed notes)
       = s\<lparr>referees_x_matches :=
             referees_x_matches (snd (update_referee_match_assignment s mid rid confirmed notes))\<rparr>"
    unfolding parts rows st by simp
  have c5: "length (referees_x_matches (snd (update_referee_match_assignment s mid rid confirmed notes)))
       = length (referees_x_matches s)"
    unfolding parts rows by simp
  have c6: "\<forall>i < length (referees_x_matches s).
         asg_referee_id (referees_x_matches (snd (update_referee_match_assignment s mid rid confirmed notes)) ! i)
           = asg_referee_id (referees_x_matches s ! i) \<and>
         asg_match_id (referees_x_matches (snd (update_referee_match_assignment s mid rid confirmed notes)) ! i)
           = asg_match_id (referees_x_matches s ! i) \<and>
         asg_role (referees_x_matches (snd (update_referee_match_assignment s mid rid confirmed notes)) ! i)
           = asg_role (referees_x_matches s ! i) \<and>
         asg_confirmed (referees_x_matches (snd (update_referee_match_assignment s mid rid confirmed notes)) ! i)
           = (case confirmed of
                None \<Rightarrow> asg_confirmed (referees_x_matches s ! i)
              | Some c \<Rightarrow>
                  if asg_referee_id (referees_x_matches s ! i) = rid \<and>
                     asg_match_id (referees_x_matches s ! i) = mid
                  then c else asg_confirmed (referees_x_matches s ! i)) \<and>
         asg_notes (referees_x_matches (snd (update_referee_match_assignment s mid rid confirmed notes)) ! i)
           = (case notes of
                None \<Rightarrow> asg_notes (referees_x_matches s ! i)
              | Some n \<Rightarrow>
                  if asg_referee_id (referees_x_matches s ! i) = rid \<and>
                     asg_match_id (referees_x_matches s ! i) = mid
                  then Some n else asg_notes (referees_x_matches s ! i))"
    unfolding parts rows by (auto split: option.splits)
  from c1 c2 c3 c4 c5 c6 show ?thesis by blast
qed


theorem update_assignment_is_partial_witness:
  "fst (update_referee_match_assignment ex_referee_store 1 2 None None) = Inl (HTTPException 404) \<and>
   snd (update_referee_match_assignment ex_referee_store 1 2 None None) = ex_referee_store \<and>
   fst (update_referee_match_assignment ex_referee_store 1 1 (Some True) None) = Inl (HTTPException 404) \<and>
   fst (update_referee_match_assignment ex_referee_store 1 2 (Some True) None)
     \<noteq> Inl (HTTPException 404) \<and>
   asg_confirmed (referees_x_matches
      (snd (update_referee_match_assignment ex_referee_store 1 2 (Some True) None)) ! 0) = True \<and>
   asg_notes (referees_x_matches
      (snd (update_referee_match_assignment ex_referee_store 1 2 (Some True) None)) ! 0) = None \<and>
   asg_role (referees_x_matches
      (snd (update_referee_match_assignment ex_referee_store 1 2 (Some True) None)) ! 0) = ''main''"
proof -
  note t1 = update_assignment_is_partial [of ex_referee_store 1 2 None None]
  note t2 = update_assignment_is_partial [of ex_referee_store 1 1 "Some True" None]
  note t3 = update_assignment_is_partial [of ex_referee_store 1 2 "Some True" None]
  have 1: "fst (update_referee_match_assignment ex_referee_store 1 2 None None) = Inl (HTTPException 404)"
    using t1 [THEN conjunct1] by (simp add: HTTP_404_NOT_FOUND_def)
  have 2: "snd (update_referee_match_assignment ex_referee_store 1 2 None None) = ex_referee_store"
    using t1 [THEN conjunct2, THEN conjunct1] 1 by simp
  have 3: "fst (update_referee_match_assignment ex_referee_store 1 1 (Some True) None) = Inl (HTTPException 404)"
    using t2 [THEN conjunct1] by (simp add: HTTP_404_NOT_FOUND_def ex_referee_defs)
  have 4: "fst (update_referee_match_assignment ex_referee_store 1 2 (Some True) None)
     \<noteq> Inl (HTTPException 404)"
    using t3 [THEN conjunct1] by (simp add: HTTP_404_NOT_FOUND_def ex_referee_defs)
  have l: "0 < length (referees_x_matches ex_referee_store)"
    by (simp add: ex_referee_defs)
  note f = t3 [THEN conjunct2, THEN conjunct2, THEN conjunct2, THEN conjunct2, THEN conjunct2,
               THEN spec, of 0, THEN mp, OF l]
  have 5: "asg_confirmed (referees_x_matches
      (snd (update_referee_match_assignment ex_referee_store 1 2 (Some True) None)) ! 0) = True"
    using f [THEN conjunct2, THEN conjunct2, THEN conjunct2, THEN conjunct1]
    by (simp add: ex_referee_defs)
  have 6: "asg_notes (referees_x_matches
      (snd (update_referee_match_assignment ex_referee_store 1 2 (Some True) None)) ! 0) = None"
    using f [THEN conjunct2, THEN conjunct2, THEN conjunct2, THEN conjunct2]
    by (simp add: ex_referee_defs)
  have 7: "asg_role (referees_x_matches
      (snd (update_referee_match_assignment ex_referee_store 1 2 (Some True) None)) ! 0) = ''main''"
    using f [THEN conjunct2, THEN conjunct2, THEN conjunct1]
    by (simp add: ex_referee_defs)
  from 1 2 3 4 5 6 7 show ?thesis by blast
qed

subsection \<open>Bulk generation\<close>

lemma persist_drafts_append:
  "persist_drafts tid s created (xs @ ys) =
     (case persist_drafts tid s created xs of
        (Inl e, s') \<Rightarrow> (Inl e, s')
      | (Inr created', s') \<Rightarrow> persist_drafts tid s' created' ys)"
  by (induction xs arbitrary: s created) (auto split: prod.splits sum.splits)

lemma add_minutes_cases:
  "add_minutes t n = Inr (t + minutes n) \<or> add_minutes t n = Inl OverflowError"
  by (simp add: add_minutes_def timedelta_minutes_def datetime_add_def)

lemma next_day_cases:
  "next_day d = Inr (d + 1) \<or> next_day d = Inl OverflowError"
  by (simp add: next_day_def)

text \<open>
  The loops against the spec's grid. Each returns, and what it returns is either what
  persisting the grid in order returns, or an \<open>OverflowError\<close> of the date arithmetic. The
  flag \<open>ok\<close> stands for the instants staying in the range of \<open>datetime\<close>: then there is no
  \<open>OverflowError\<close>.
\<close>

lemma slot_loop_returns:
  assumes "D = minutes (slot_duration_minutes r)" and "B = minutes (break_duration_minutes r)"
      and "0 < D" and "0 \<le> B"
      and "ok \<longrightarrow> timedelta_minutes (slot_duration_minutes r) = Inr D \<and>
                 timedelta_minutes (break_duration_minutes r) = Inr B \<and>
                 min_datetime \<le> cursor \<and> daily_close + D + B \<le> max_datetime"
  shows "\<exists>res. slot_loop r c daily_close s created cursor = Some res \<and>
           (res = persist_drafts (bulk_tournament_id r) s created
                    (map (Pair c) (spec_day_slots cursor daily_close D B)) \<or>
            \<not> ok \<and> (\<exists>s'. res = (Inl OverflowError, s')))"
  using assms
proof (induction cursor daily_close D B arbitrary: s created rule: spec_day_slots.induct)
  case (1 cursor daily_close D B)
  note D = "1.prems"(1) and B = "1.prems"(2) and pos = "1.prems"(3,4) and range = "1.prems"(5)
  have a1: "add_minutes cursor (slot_duration_minutes r) = Inr (cursor + D) \<or>
            \<not> ok \<and> add_minutes cursor (slot_duration_minutes r) = Inl OverflowError"
    if "cursor < daily_close"
  proof (cases ok)
    case True
    with range that pos show ?thesis
      by (simp add: add_minutes_def datetime_add_def)
  next
    case False
    with add_minutes_cases [of cursor "slot_duration_minutes r"] show ?thesis
      by (simp add: D)
  qed
  have a2: "add_minutes (cursor + D) (break_duration_minutes r) = Inr (cursor + (D + B)) \<or>
            \<not> ok \<and> add_minutes (cursor + D) (break_duration_minutes r) = Inl OverflowError"
    if "cursor + D \<le> daily_close"
  proof (cases ok)
    case True
    with range that pos show ?thesis
      by (simp add: add_minutes_def datetime_add_def add.assoc)
  next
    case False
    with add_minutes_cases [of "cursor + D" "break_duration_minutes r"] show ?thesis
      by (simp add: B add.assoc)
  qed
  show ?case
  proof (cases "cursor < daily_close")
    case False
    then have sd: "spec_day_slots cursor daily_close D B = []"
      using pos by (subst spec_day_slots.simps) simp
    have "slot_loop r c daily_close s created cursor = Some (Inr created, s)"
      using False by (subst slot_loop.simps) simp
    then show ?thesis
      by (simp add: sd)
  next
    case lt: True
    from a1 [OF lt] show ?thesis
    proof
      assume ov: "\<not> ok \<and> add_minutes cursor (slot_duration_minutes r) = Inl OverflowError"
      then have "slot_loop r c daily_close s created cursor = Some (Inl OverflowError, s)"
        using lt by (subst slot_loop.simps) simp
      with ov show ?thesis by simp
    next
      assume e1: "add_minutes cursor (slot_duration_minutes r) = Inr (cursor + D)"
      show ?thesis
      proof (cases "cursor + D \<le> daily_close")
        case False
        then have sd: "spec_day_slots cursor daily_close D B = []"
          by (subst spec_day_slots.simps) simp
        have "slot_loop r c daily_close s created cursor = Some (Inr created, s)"
          using lt False e1 by (subst slot_loop.simps) simp
        then show ?thesis
          by (simp add: sd)
      next
        case True
        have sd: "spec_day_slots cursor daily_close D B =
                    (cursor, cursor + D) # spec_day_slots (cursor + (D + B)) daily_close D B"
          using True pos by (subst spec_day_slots.simps) simp
        let ?v = "\<lparr>ins_tournament_id = bulk_tournament_id r, ins_court_id = c,
                    ins_start_time = cursor, ins_end_time = cursor + D,
                    ins_is_available = True, ins_match_id = None\<rparr>"
        obtain res1 s1 where ins: "insert_time_slot s ?v = (res1, s1)"
          by (cases "insert_time_slot s ?v") auto
        show ?thesis
        proof (cases res1)
          case (Inl e)
          have "slot_loop r c daily_close s created cursor = Some (Inl e, s1)"
            using lt True e1 ins Inl by (subst slot_loop.simps) simp
          then show ?thesis
            by (simp add: sd ins Inl)
        next
          case (Inr row)
          from a2 [OF True] show ?thesis
          proof
            assume ov: "\<not> ok \<and>
              add_minutes (cursor + D) (break_duration_minutes r) = Inl OverflowError"
            then have "slot_loop r c daily_close s created cursor = Some (Inl OverflowError, s1)"
              using lt True e1 ins Inr by (subst slot_loop.simps) simp
            with ov show ?thesis by simp
          next
            assume e2: "add_minutes (cursor + D) (break_duration_minutes r)
                          = Inr (cursor + (D + B))"
            have step: "slot_loop r c daily_close s created cursor =
                          slot_loop r c daily_close s1 (created @ [row]) (cursor + (D + B))"
              using lt True e1 e2 ins Inr by (subst slot_loop.simps) simp
            have range': "ok \<longrightarrow> timedelta_minutes (slot_duration_minutes r) = Inr D \<and>
                 timedelta_minutes (break_duration_minutes r) = Inr B \<and>
                 min_datetime \<le> cursor + (D + B) \<and> daily_close + D + B \<le> max_datetime"
              using range pos by auto
            have g: "0 < D \<and> 0 \<le> B \<and> cursor + D \<le> daily_close"
              using pos True by simp
            from "1.IH" [OF g D B pos range', of s1 "created @ [row]"]
            show ?thesis
              by (simp add: step sd ins Inr)
          qed
        qed
      qed
    qed
  qed
qed

lemma courts_loop_returns:
  assumes "0 < minutes (slot_duration_minutes r)" and "0 \<le> minutes (break_duration_minutes r)"
      and "ok \<longrightarrow>
             timedelta_minutes (slot_duration_minutes r) = Inr (minutes (slot_duration_minutes r)) \<and>
             timedelta_minutes (break_duration_minutes r) = Inr (minutes (break_duration_minutes r)) \<and>
             min_datetime \<le> combine d daily_open \<and>
             combine d daily_close + minutes (slot_duration_minutes r)
               + minutes (break_duration_minutes r) \<le> max_datetime"
  shows "\<exists>res. courts_loop r daily_open daily_close d s created cs = Some res \<and>
           (res = persist_drafts (bulk_tournament_id r) s created
                   (concat (map (\<lambda>c.
                      map (Pair c)
                        (spec_day_slots (combine d daily_open) (combine d daily_close)
                           (minutes (slot_duration_minutes r)) (minutes (break_duration_minutes r))))
                     cs)) \<or>
            \<not> ok \<and> (\<exists>s'. res = (Inl OverflowError, s')))"
proof (induction cs arbitrary: s created)
  case Nil
  show ?case by simp
next
  case (Cons c cs)
  let ?w = "map (Pair c)
              (spec_day_slots (combine d daily_open) (combine d daily_close)
                 (minutes (slot_duration_minutes r)) (minutes (break_duration_minutes r)))"
  from slot_loop_returns [OF refl refl assms, of c s created]
  obtain res1 where
    sl: "slot_loop r c (combine d daily_close) s created (combine d daily_open) = Some res1"
    and alt: "res1 = persist_drafts (bulk_tournament_id r) s created ?w \<or>
              \<not> ok \<and> (\<exists>s'. res1 = (Inl OverflowError, s'))"
    by blast
  from alt show ?case
  proof
    assume "\<not> ok \<and> (\<exists>s'. res1 = (Inl OverflowError, s'))"
    then show ?thesis
      using sl by auto
  next
    assume p: "res1 = persist_drafts (bulk_tournament_id r) s created ?w"
    obtain out s1 where pr: "persist_drafts (bulk_tournament_id r) s created ?w = (out, s1)"
      by (cases "persist_drafts (bulk_tournament_id r) s created ?w") auto
    show ?thesis
    proof (cases out)
      case (Inl e)
      show ?thesis
        using sl p pr Inl by (simp add: persist_drafts_append)
    next
      case (Inr rows)
      from Cons.IH [of s1 rows] show ?thesis
        using sl p pr Inr by (simp add: persist_drafts_append)
    qed
  qed
qed

lemma days_loop_returns:
  assumes "0 < minutes (slot_duration_minutes r)" and "0 \<le> minutes (break_duration_minutes r)"
      and "ok \<longrightarrow>
             timedelta_minutes (slot_duration_minutes r) = Inr (minutes (slot_duration_minutes r)) \<and>
             timedelta_minutes (break_duration_minutes r) = Inr (minutes (break_duration_minutes r)) \<and>
             min_date \<le> d \<and> last_day < max_date \<and> 0 \<le> daily_open \<and>
             combine last_day daily_close + minutes (slot_duration_minutes r)
               + minutes (break_duration_minutes r) \<le> max_datetime"
  shows "\<exists>res. days_loop r daily_open daily_close last_day s created d = Some res \<and>
           (res = persist_drafts (bulk_tournament_id r) s created
                   (concat (map (\<lambda>d.
                      concat (map (\<lambda>c.
                         map (Pair c)
                           (spec_day_slots (combine d daily_open) (combine d daily_close)
                              (minutes (slot_duration_minutes r))
                              (minutes (break_duration_minutes r))))
                        (court_ids r)))
                     (filter (\<lambda>d. weekday d \<notin> set (exclude_days r)) [d..last_day]))) \<or>
            \<not> ok \<and> (\<exists>s'. res = (Inl OverflowError, s')))"
  using assms(3)
proof (induction "nat (last_day + 1 - d)" arbitrary: d s created rule: less_induct)
  case less
  note range = less.prems
  show ?case
  proof (cases "d \<le> last_day")
    case False
    then show ?thesis
      by (subst days_loop.simps) simp
  next
    case True
    then have up: "[d..last_day] = d # [d + 1..last_day]"
      by (simp add: upto_rec1)
    have nd: "next_day d = Inr (d + 1) \<or> \<not> ok \<and> next_day d = Inl OverflowError"
    proof (cases ok)
      case ok: True
      with range True show ?thesis by (simp add: next_day_def)
    next
      case False
      with next_day_cases [of d] show ?thesis by simp
    qed
    have range': "ok \<longrightarrow>
             timedelta_minutes (slot_duration_minutes r) = Inr (minutes (slot_duration_minutes r)) \<and>
             timedelta_minutes (break_duration_minutes r) = Inr (minutes (break_duration_minutes r)) \<and>
             min_date \<le> d + 1 \<and> last_day < max_date \<and> 0 \<le> daily_open \<and>
             combine last_day daily_close + minutes (slot_duration_minutes r)
               + minutes (break_duration_minutes r) \<le> max_datetime"
      using range by auto
    have m: "nat (last_day + 1 - (d + 1)) < nat (last_day + 1 - d)"
      using True by simp
    note ih = less.hyps [OF m range']
    have day: "ok \<longrightarrow>
             timedelta_minutes (slot_duration_minutes r) = Inr (minutes (slot_duration_minutes r)) \<and>
             timedelta_minutes (break_duration_minutes r) = Inr (minutes (break_duration_minutes r)) \<and>
             min_datetime \<le> combine d daily_open \<and>
             combine d daily_close + minutes (slot_duration_minutes r)
               + minutes (break_duration_minutes r) \<le> max_datetime"
    proof
      assume ok
      with range have td: "timedelta_minutes (slot_duration_minutes r)
                             = Inr (minutes (slot_duration_minutes r)) \<and>
             timedelta_minutes (break_duration_minutes r) = Inr (minutes (break_duration_minutes r))"
        and lo: "min_date \<le> d" "0 \<le> daily_open"
        and hi: "combine last_day daily_close + minutes (slot_duration_minutes r)
               + minutes (break_duration_minutes r) \<le> max_datetime"
        by simp_all
      have 1: "min_datetime \<le> combine d daily_open"
        using lo by (simp add: combine_def min_datetime_def min_date_def day_length_def)
      have "combine d daily_close \<le> combine last_day daily_close"
        using True by (simp add: combine_def day_length_def)
      with hi have 2: "combine d daily_close + minutes (slot_duration_minutes r)
               + minutes (break_duration_minutes r) \<le> max_datetime"
        by simp
      from td 1 2 show "timedelta_minutes (slot_duration_minutes r)
                             = Inr (minutes (slot_duration_minutes r)) \<and>
             timedelta_minutes (break_duration_minutes r) = Inr (minutes (break_duration_minutes r)) \<and>
             min_datetime \<le> combine d daily_open \<and>
             combine d daily_close + minutes (slot_duration_minutes r)
               + minutes (break_duration_minutes r) \<le> max_datetime"
        by simp
    qed
    show ?thesis
    proof (cases "weekday d \<in> set (exclude_days r)")
      case ex: True
      from nd show ?thesis
      proof
        assume ov: "\<not> ok \<and> next_day d = Inl OverflowError"
        then have "days_loop r daily_open daily_close last_day s created d
                     = Some (Inl OverflowError, s)"
          using True ex by (subst days_loop.simps) simp
        with ov show ?thesis by simp
      next
        assume n: "next_day d = Inr (d + 1)"
        have "days_loop r daily_open daily_close last_day s created d
                = days_loop r daily_open daily_close last_day s created (d + 1)"
          using True ex n by (subst days_loop.simps) simp
        with ih [of s created] show ?thesis
          using ex by (simp add: up)
      qed
    next
      case nex: False
      let ?g = "concat (map (\<lambda>c.
                      map (Pair c)
                        (spec_day_slots (combine d daily_open) (combine d daily_close)
                           (minutes (slot_duration_minutes r)) (minutes (break_duration_minutes r))))
                     (court_ids r))"
      from courts_loop_returns [OF assms(1,2) day, of s created "court_ids r"]
      obtain res1 where
        cl: "courts_loop r daily_open daily_close d s created (court_ids r) = Some res1"
        and alt: "res1 = persist_drafts (bulk_tournament_id r) s created ?g \<or>
                  \<not> ok \<and> (\<exists>s'. res1 = (Inl OverflowError, s'))"
        by blast
      from alt show ?thesis
      proof
        assume ov: "\<not> ok \<and> (\<exists>s'. res1 = (Inl OverflowError, s'))"
        then obtain s' where r1: "res1 = (Inl OverflowError, s')" by blast
        have "days_loop r daily_open daily_close last_day s created d
                = Some (Inl OverflowError, s')"
          using True nex cl r1 by (subst days_loop.simps) simp
        with ov show ?thesis by simp
      next
        assume p: "res1 = persist_drafts (bulk_tournament_id r) s created ?g"
        obtain out s1 where pr: "persist_drafts (bulk_tournament_id r) s created ?g = (out, s1)"
          by (cases "persist_drafts (bulk_tournament_id r) s created ?g") auto
        show ?thesis
        proof (cases out)
          case (Inl e)
          have "days_loop r daily_open daily_close last_day s created d = Some (Inl e, s1)"
            using True nex cl p pr Inl by (subst days_loop.simps) simp
          then show ?thesis
            using nex by (simp add: up persist_drafts_append pr Inl)
        next
          case (Inr rows)
          from nd show ?thesis
          proof
            assume ov: "\<not> ok \<and> next_day d = Inl OverflowError"
            then have "days_loop r daily_open daily_close last_day s created d
                         = Some (Inl OverflowError, s1)"
              using True nex cl p pr Inr by (subst days_loop.simps) simp
            with ov show ?thesis by simp
          next
            assume n: "next_day d = Inr (d + 1)"
            have "days_loop r daily_open daily_close last_day s created d
                    = days_loop r daily_open daily_close last_day s1 rows (d + 1)"
              using True nex cl p pr Inr n by (subst days_loop.simps) simp
            with ih [of s1 rows] show ?thesis
              using nex by (simp add: up persist_drafts_append pr Inr)
          qed
        qed
      qed
    qed
  qed
qed


lemma insert_time_slot_accepts:
  assumes "tid \<in> set (tournaments s)" and "c \<in> set (courts s)"
      and "\<forall>row \<in> set (time_slots s).
             (slot_court_id row, slot_start_time row, slot_end_time row) \<noteq> (c, a, b)"
      and "\<forall>row \<in> set (time_slots s). slot_id row < time_slots_id_seq s"
  shows "insert_time_slot s
           \<lparr>ins_tournament_id = tid, ins_court_id = c, ins_start_time = a,
            ins_end_time = b, ins_is_available = True, ins_match_id = None\<rparr> =
         (Inr \<lparr>slot_id = time_slots_id_seq s, slot_tournament_id = tid, slot_court_id = c,
               slot_start_time = a, slot_end_time = b, slot_is_available = True,
               slot_match_id = None\<rparr>,
          s\<lparr>time_slots_id_seq := time_slots_id_seq s + 1,
            time_slots := time_slots s @
              [\<lparr>slot_id = time_slots_id_seq s, slot_tournament_id = tid, slot_court_id = c,
                slot_start_time = a, slot_end_time = b, slot_is_available = True,
                slot_match_id = None\<rparr>]\<rparr>)"
proof -
  have pk: "\<not> (\<exists>row \<in> set (time_slots s). slot_id row = time_slots_id_seq s)"
    using assms(4) by fastforce
  have uq: "\<not> (\<exists>row \<in> set (time_slots s).
               slot_court_id row = c \<and> slot_start_time row = a \<and> slot_end_time row = b)"
    using assms(3) by fastforce
  show ?thesis
    unfolding insert_time_slot_def Let_def
    using pk uq assms(1,2) by simp
qed

lemma persist_drafts_accepts:
  assumes "tid \<in> set (tournaments s)"
      and "\<forall>k \<in> set keys. fst k \<in> set (courts s)"
      and "distinct keys"
      and "\<forall>row \<in> set (time_slots s).
             (slot_court_id row, slot_start_time row, slot_end_time row) \<notin> set keys"
      and "\<forall>row \<in> set (time_slots s). slot_id row < time_slots_id_seq s"
  shows "persist_drafts tid s created keys =
           (Inr (created @ draft_rows tid (time_slots_id_seq s) keys),
            s\<lparr>time_slots_id_seq := time_slots_id_seq s + int (length keys),
              time_slots := time_slots s @ draft_rows tid (time_slots_id_seq s) keys\<rparr>)"
  using assms
proof (induction keys arbitrary: s created)
  case Nil
  show ?case by simp
next
  case (Cons k keys)
  obtain c a b where k: "k = (c, a, b)" by (cases k) auto
  let ?row = "\<lparr>slot_id = time_slots_id_seq s, slot_tournament_id = tid, slot_court_id = c,
               slot_start_time = a, slot_end_time = b, slot_is_available = True,
               slot_match_id = None\<rparr>"
  let ?s' = "s\<lparr>time_slots_id_seq := time_slots_id_seq s + 1,
              time_slots := time_slots s @ [?row]\<rparr>"
  have ins: "insert_time_slot s
           \<lparr>ins_tournament_id = tid, ins_court_id = c, ins_start_time = a,
            ins_end_time = b, ins_is_available = True, ins_match_id = None\<rparr> = (Inr ?row, ?s')"
    using Cons.prems by (intro insert_time_slot_accepts) (auto simp: k)
  have ih: "persist_drafts tid ?s' (created @ [?row]) keys =
           (Inr ((created @ [?row]) @ draft_rows tid (time_slots_id_seq ?s') keys),
            ?s'\<lparr>time_slots_id_seq := time_slots_id_seq ?s' + int (length keys),
              time_slots := time_slots ?s' @ draft_rows tid (time_slots_id_seq ?s') keys\<rparr>)"
  proof (rule Cons.IH)
    show "tid \<in> set (tournaments ?s')" using Cons.prems(1) by simp
    show "\<forall>k \<in> set keys. fst k \<in> set (courts ?s')" using Cons.prems(2) by simp
    show "distinct keys" using Cons.prems(3) by simp
    show "\<forall>row \<in> set (time_slots ?s').
             (slot_court_id row, slot_start_time row, slot_end_time row) \<notin> set keys"
      using Cons.prems(3,4) by (auto simp: k)
    show "\<forall>row \<in> set (time_slots ?s'). slot_id row < time_slots_id_seq ?s'"
      using Cons.prems(5) by fastforce
  qed
  show ?case
    unfolding k persist_drafts.simps ins
    by (simp add: ih)
qed


lemma spec_day_slots_mem:
  "(a, b) \<in> set (spec_day_slots cursor daily_close D B) \<Longrightarrow>
     cursor \<le> a \<and> b = a + D \<and> b \<le> daily_close \<and> 0 < D"
proof (induction cursor daily_close D B rule: spec_day_slots.induct)
  case (1 cursor daily_close D B)
  show ?case
  proof (cases "0 < D \<and> 0 \<le> B \<and> cursor + D \<le> daily_close")
    case True
    then have sd: "spec_day_slots cursor daily_close D B =
                (cursor, cursor + D) # spec_day_slots (cursor + (D + B)) daily_close D B"
      by (subst spec_day_slots.simps) simp
    from "1.prems" [unfolded sd] have
      "(a, b) = (cursor, cursor + D) \<or>
       (a, b) \<in> set (spec_day_slots (cursor + (D + B)) daily_close D B)"
      by simp
    then show ?thesis
    proof
      assume "(a, b) = (cursor, cursor + D)"
      then show ?thesis using True by simp
    next
      assume "(a, b) \<in> set (spec_day_slots (cursor + (D + B)) daily_close D B)"
      from "1.IH" [OF True this] show ?thesis using True by simp
    qed
  next
    case False
    then have "spec_day_slots cursor daily_close D B = []"
      by (subst spec_day_slots.simps) simp
    with "1.prems" show ?thesis by simp
  qed
qed

lemma spec_day_slots_distinct: "distinct (spec_day_slots cursor daily_close D B)"
proof (induction cursor daily_close D B rule: spec_day_slots.induct)
  case (1 cursor daily_close D B)
  show ?case
  proof (cases "0 < D \<and> 0 \<le> B \<and> cursor + D \<le> daily_close")
    case True
    then have sd: "spec_day_slots cursor daily_close D B =
                (cursor, cursor + D) # spec_day_slots (cursor + (D + B)) daily_close D B"
      by (subst spec_day_slots.simps) simp
    have "(cursor, cursor + D) \<notin> set (spec_day_slots (cursor + (D + B)) daily_close D B)"
      using spec_day_slots_mem [of cursor "cursor + D" "cursor + (D + B)" daily_close D B] True
      by auto
    then show ?thesis
      unfolding sd using "1.IH" [OF True] by simp
  next
    case False
    then have "spec_day_slots cursor daily_close D B = []"
      by (subst spec_day_slots.simps) simp
    then show ?thesis by simp
  qed
qed

lemma date_of_combine:
  assumes "0 \<le> x" and "x < day_length"
  shows "date_of (combine d x) = d"
proof -
  have "(d * day_length + x) div day_length = d"
    using assms by (simp add: day_length_def div_pos_pos_trivial)
  then show ?thesis by (simp add: date_of_def combine_def)
qed

lemma spec_grid_mem:
  "((c, a, b) \<in> set (spec_grid r daily_open daily_close)) =
     (\<exists>d \<in> set (spec_days r). c \<in> set (court_ids r) \<and>
        (a, b) \<in> set (spec_day_slots (combine d daily_open) (combine d daily_close)
                        (minutes (slot_duration_minutes r)) (minutes (break_duration_minutes r))))"
  by (auto simp: spec_grid_def)

lemma distinct_concat_map:
  assumes "distinct xs"
      and "\<And>x. x \<in> set xs \<Longrightarrow> distinct (f x)"
      and "\<And>x y. x \<in> set xs \<Longrightarrow> y \<in> set xs \<Longrightarrow> x \<noteq> y \<Longrightarrow> set (f x) \<inter> set (f y) = {}"
  shows "distinct (concat (map f xs))"
  using assms
proof (induction xs)
  case Nil
  show ?case by simp
next
  case (Cons x xs)
  have "set (f x) \<inter> set (concat (map f xs)) = {}"
    using Cons.prems(1,3) by fastforce
  moreover have "distinct (concat (map f xs))"
    using Cons by simp
  ultimately show ?case
    using Cons.prems(2) by simp
qed


lemma spec_day_slots_date:
  assumes "(a, b) \<in> set (spec_day_slots (combine d daily_open) (combine d daily_close) D B)"
      and "0 \<le> daily_open" and "daily_close \<le> day_length"
  shows "date_of a = d"
proof -
  from spec_day_slots_mem [OF assms(1)]
  have lo: "combine d daily_open \<le> a" and hi: "a + D \<le> combine d daily_close" and D: "0 < D"
    by simp_all
  define x where "x = a - d * day_length"
  have "0 \<le> x" using lo assms(2) by (simp add: x_def combine_def)
  moreover have "x < day_length" using hi D assms(3) by (simp add: x_def combine_def)
  ultimately have "date_of (combine d x) = d" by (rule date_of_combine)
  then show ?thesis by (simp add: x_def combine_def)
qed

lemma spec_grid_distinct:
  assumes "distinct (court_ids r)" and "0 \<le> daily_open" and "daily_close \<le> day_length"
  shows "distinct (spec_grid r daily_open daily_close)"
  unfolding spec_grid_def
proof (rule distinct_concat_map)
  show "distinct (spec_days r)"
    by (simp add: spec_days_def)
next
  fix d
  show "distinct (concat (map (\<lambda>c. map (Pair c)
          (spec_day_slots (combine d daily_open) (combine d daily_close)
             (minutes (slot_duration_minutes r)) (minutes (break_duration_minutes r))))
          (court_ids r)))"
  proof (rule distinct_concat_map)
    show "distinct (court_ids r)" by (rule assms(1))
  next
    fix c
    show "distinct (map (Pair c)
          (spec_day_slots (combine d daily_open) (combine d daily_close)
             (minutes (slot_duration_minutes r)) (minutes (break_duration_minutes r))))"
      by (simp add: distinct_map spec_day_slots_distinct inj_on_def)
  next
    fix c c' :: int
    assume "c \<noteq> c'"
    then show "set (map (Pair c)
          (spec_day_slots (combine d daily_open) (combine d daily_close)
             (minutes (slot_duration_minutes r)) (minutes (break_duration_minutes r)))) \<inter>
        set (map (Pair c')
          (spec_day_slots (combine d daily_open) (combine d daily_close)
             (minutes (slot_duration_minutes r)) (minutes (break_duration_minutes r)))) = {}"
      by auto
  qed
next
  fix d d' :: int
  assume ne: "d \<noteq> d'"
  show "set (concat (map (\<lambda>c. map (Pair c)
          (spec_day_slots (combine d daily_open) (combine d daily_close)
             (minutes (slot_duration_minutes r)) (minutes (break_duration_minutes r))))
          (court_ids r))) \<inter>
        set (concat (map (\<lambda>c. map (Pair c)
          (spec_day_slots (combine d' daily_open) (combine d' daily_close)
             (minutes (slot_duration_minutes r)) (minutes (break_duration_minutes r))))
          (court_ids r))) = {}"
  proof (rule ccontr)
    assume "set (concat (map (\<lambda>c. map (Pair c)
          (spec_day_slots (combine d daily_open) (combine d daily_close)
             (minutes (slot_duration_minutes r)) (minutes (break_duration_minutes r))))
          (court_ids r))) \<inter>
        set (concat (map (\<lambda>c. map (Pair c)
          (spec_day_slots (combine d' daily_open) (combine d' daily_close)
             (minutes (slot_duration_minutes r)) (minutes (break_duration_minutes r))))
          (court_ids r))) \<noteq> {}"
    then obtain k where
      k1: "k \<in> set (concat (map (\<lambda>c. map (Pair c)
          (spec_day_slots (combine d daily_open) (combine d daily_close)
             (minutes (slot_duration_minutes r)) (minutes (break_duration_minutes r))))
          (court_ids r)))" and
      k2: "k \<in> set (concat (map (\<lambda>c. map (Pair c)
          (spec_day_slots (combine d' daily_open) (combine d' daily_close)
             (minutes (slot_duration_minutes r)) (minutes (break_duration_minutes r))))
          (court_ids r)))"
      by blast
    obtain c a b where k: "k = (c, a, b)" by (cases k) auto
    from k1 have "(a, b) \<in> set (spec_day_slots (combine d daily_open) (combine d daily_close)
             (minutes (slot_duration_minutes r)) (minutes (break_duration_minutes r)))"
      by (auto simp: k)
    then have 1: "date_of a = d" by (rule spec_day_slots_date [OF _ assms(2,3)])
    from k2 have "(a, b) \<in> set (spec_day_slots (combine d' daily_open) (combine d' daily_close)
             (minutes (slot_duration_minutes r)) (minutes (break_duration_minutes r)))"
      by (auto simp: k)
    then have 2: "date_of a = d'" by (rule spec_day_slots_date [OF _ assms(2,3)])
    from 1 2 ne show False by simp
  qed
qed

lemma digit_value_le:
  "is_digit c \<Longrightarrow> digit_value c \<le> 9"
  "c \<in> set ''0123'' \<Longrightarrow> digit_value c \<le> 3"
  "c \<in> set ''01'' \<Longrightarrow> digit_value c \<le> 1"
  "c \<in> set ''012345'' \<Longrightarrow> digit_value c \<le> 5"
  by (auto simp: is_digit_def digit_value_def)

lemma H_alternatives_le:
  assumes "(h, rest) \<in> set (H_alternatives s)"
  shows "h \<le> 23"
proof (cases s)
  case Nil
  with assms show ?thesis by (simp add: H_alternatives_def)
next
  case (Cons a s')
  show ?thesis
  proof (cases s')
    case Nil
    with assms Cons digit_value_le(1) [of a] show ?thesis
      by (auto simp: H_alternatives_def split: if_splits)
  next
    case (Cons b s'')
    from assms have "h = 20 + digit_value b \<and> b \<in> set ''0123'' \<or>
          h = 10 * digit_value a + digit_value b \<and> a \<in> set ''01'' \<and> is_digit b \<or>
          h = digit_value a \<and> is_digit a"
      unfolding H_alternatives_def \<open>s = a # s'\<close> Cons
      by (auto split: if_splits)
    then show ?thesis
      using digit_value_le(1) [of a] digit_value_le(1) [of b] digit_value_le(2) [of b]
            digit_value_le(3) [of a]
      by auto
  qed
qed

lemma match_M_le:
  assumes "match_M s = Some (m, rest)"
  shows "m \<le> 59"
proof (cases s rule: match_M.cases)
  case (1 a b rest')
  from assms have "m = 10 * digit_value a + digit_value b \<and> a \<in> set ''012345'' \<and> is_digit b \<or>
        m = digit_value a \<and> is_digit a"
    unfolding 1 by (auto split: if_splits)
  then show ?thesis
    using digit_value_le(1) [of a] digit_value_le(1) [of b] digit_value_le(4) [of a]
    by auto
next
  case (2 a)
  with assms digit_value_le(1) [of a] show ?thesis
    by (auto split: if_splits)
next
  case 3
  with assms show ?thesis by simp
qed

lemma map_filter_mem:
  "y \<in> set (List.map_filter f xs) \<Longrightarrow> \<exists>x \<in> set xs. f x = Some y"
  by (induction xs) (auto split: option.splits)

lemma strptime_HM_range:
  assumes "strptime_HM s = Inr t"
  shows "0 \<le> t \<and> t < day_length"
proof -
  from assms obtain h m rest' tl where
    mf: "List.map_filter
             (\<lambda>(h, rest). map_option (\<lambda>(m, rest'). (h, m, rest')) (match_colon_M rest))
             (H_alternatives s) = (h, m, rest') # tl"
    and t: "t = minutes (int (h * 60 + m))"
    unfolding strptime_HM_def
    by (auto split: list.splits if_splits)
  have "(h, m, rest') \<in> set (List.map_filter
             (\<lambda>(h, rest). map_option (\<lambda>(m, rest'). (h, m, rest')) (match_colon_M rest))
             (H_alternatives s))"
    unfolding mf by simp
  then obtain rest where hm: "(h, rest) \<in> set (H_alternatives s)"
      and mm: "match_colon_M rest = Some (m, rest')"
    by (auto dest!: map_filter_mem split: prod.splits)
  from mm obtain rest2 where "match_M rest2 = Some (m, rest')"
    by (auto simp: match_colon_M_def split: list.splits if_splits)
  then have m: "m \<le> 59" by (rule match_M_le)
  have h: "h \<le> 23" using hm by (rule H_alternatives_le)
  from h m have "h * 60 + m \<le> 1439" by simp
  then have "int (h * 60 + m) \<le> 1439" by linarith
  then show ?thesis
    unfolding t by (simp add: minutes_def day_length_def)
qed

lemma length_spec_day_slots:
  assumes "0 < D" and "0 \<le> B"
  shows "length (spec_day_slots cursor daily_close D B) = spec_slots_per_day cursor daily_close D B"
  using assms
proof (induction cursor daily_close D B rule: spec_day_slots.induct)
  case (1 cursor daily_close D B)
  show ?case
  proof (cases "cursor + D \<le> daily_close")
    case False
    then have "spec_day_slots cursor daily_close D B = []"
      by (subst spec_day_slots.simps) simp
    then show ?thesis using False by (simp add: spec_slots_per_day_def)
  next
    case True
    then have sd: "spec_day_slots cursor daily_close D B =
                (cursor, cursor + D) # spec_day_slots (cursor + (D + B)) daily_close D B"
      using "1.prems" by (subst spec_day_slots.simps) simp
    have ih: "length (spec_day_slots (cursor + (D + B)) daily_close D B) =
                spec_slots_per_day (cursor + (D + B)) daily_close D B"
      using "1.IH" True "1.prems" by simp
    define x where "x = daily_close - cursor - D"
    define k where "k = D + B"
    have x0: "0 \<le> x" and k0: "0 < k" using True "1.prems" by (simp_all add: x_def k_def)
    have step: "nat (x div k) + 1 = Suc (if x - B < D then 0 else nat ((x - k) div k) + 1)"
    proof (cases "x < k")
      case True
      then have "x div k = 0" using x0 by (simp add: div_pos_pos_trivial)
      then show ?thesis using True by (simp add: k_def)
    next
      case False
      then have "x div k = (x - k) div k + 1"
        using k0 by (simp add: div_pos_geq)
      moreover have "0 \<le> (x - k) div k"
        using False k0 by (simp add: pos_imp_zdiv_nonneg_iff)
      ultimately show ?thesis using False by (simp add: k_def nat_add_distrib)
    qed
    have a: "spec_slots_per_day cursor daily_close D B = nat (x div k) + 1"
      using True by (simp add: spec_slots_per_day_def x_def k_def)
    have b: "spec_slots_per_day (cursor + (D + B)) daily_close D B =
               (if x - B < D then 0 else nat ((x - k) div k) + 1)"
      by (simp add: spec_slots_per_day_def x_def k_def algebra_simps)
    show ?thesis
      unfolding sd a using ih b step by simp
  qed
qed

lemma length_concat_const:
  assumes "\<forall>x \<in> set xs. length (f x) = k"
  shows "length (concat (map f xs)) = length xs * k"
  using assms by (induction xs) auto

lemma length_spec_grid:
  assumes "0 < slot_duration_minutes r" and "0 \<le> break_duration_minutes r"
  shows "length (spec_grid r daily_open daily_close) =
           length (court_ids r) * length (spec_days r) *
           spec_slots_per_day daily_open daily_close
             (minutes (slot_duration_minutes r)) (minutes (break_duration_minutes r))"
proof -
  let ?D = "minutes (slot_duration_minutes r)" and ?B = "minutes (break_duration_minutes r)"
  let ?S = "spec_slots_per_day daily_open daily_close ?D ?B"
  have DB: "0 < ?D" "0 \<le> ?B" using assms by (simp_all add: minutes_def)
  have day: "length (spec_day_slots (combine d daily_open) (combine d daily_close) ?D ?B) = ?S" for d
    unfolding length_spec_day_slots [OF DB]
    by (simp add: spec_slots_per_day_def combine_def)
  have courts: "length (concat (map (\<lambda>c. map (Pair c)
          (spec_day_slots (combine d daily_open) (combine d daily_close) ?D ?B))
          (court_ids r))) = length (court_ids r) * ?S" for d
    by (rule length_concat_const) (simp add: day)
  have "length (spec_grid r daily_open daily_close) = length (spec_days r) * (length (court_ids r) * ?S)"
    unfolding spec_grid_def by (rule length_concat_const) (simp add: courts)
  then show ?thesis by (simp add: mult.assoc mult.left_commute)
qed


lemma filter_concat_none:
  assumes "\<forall>y \<in> set xs. filter P (f y) = []"
  shows "filter P (concat (map f xs)) = []"
  using assms by (induction xs) auto

lemma filter_concat_single:
  assumes "distinct xs" and "x \<in> set xs"
      and "\<forall>y \<in> set xs. y \<noteq> x \<longrightarrow> filter P (f y) = []"
  shows "filter P (concat (map f xs)) = filter P (f x)"
  using assms
proof (induction xs)
  case Nil
  then show ?case by simp
next
  case (Cons a xs)
  show ?case
  proof (cases "a = x")
    case True
    then have "\<forall>y \<in> set xs. filter P (f y) = []"
      using Cons.prems by auto
    then have "filter P (concat (map f xs)) = []"
      by (rule filter_concat_none)
    then show ?thesis using True by simp
  next
    case False
    then have "filter P (f a) = []" using Cons.prems by simp
    moreover have "filter P (concat (map f xs)) = filter P (f x)"
      using Cons False by simp
    ultimately show ?thesis by simp
  qed
qed

lemma spec_grid_filter:
  assumes "distinct (court_ids r)" and "0 \<le> daily_open" and "daily_close \<le> day_length"
      and "d \<in> set (spec_days r)" and "c \<in> set (court_ids r)"
  shows "filter (\<lambda>k. fst k = c \<and> date_of (fst (snd k)) = d) (spec_grid r daily_open daily_close)
           = map (Pair c)
               (spec_day_slots (combine d daily_open) (combine d daily_close)
                  (minutes (slot_duration_minutes r)) (minutes (break_duration_minutes r)))"
proof -
  let ?W = "\<lambda>d. spec_day_slots (combine d daily_open) (combine d daily_close)
                  (minutes (slot_duration_minutes r)) (minutes (break_duration_minutes r))"
  let ?P = "\<lambda>k. fst k = c \<and> date_of (fst (snd k)) = d"
  let ?G = "\<lambda>d c. map (Pair c) (?W d)"
  let ?F = "\<lambda>d. concat (map (?G d) (court_ids r))"
  have date: "date_of (fst ab) = d'" if "ab \<in> set (?W d')" for ab d'
    using spec_day_slots_date [OF _ assms(2,3), of "fst ab" "snd ab" d'] that by simp
  have days: "distinct (spec_days r)" by (simp add: spec_days_def)
  have 1: "filter ?P (concat (map ?F (spec_days r))) = filter ?P (?F d)"
  proof (rule filter_concat_single [OF days assms(4)])
    show "\<forall>y \<in> set (spec_days r). y \<noteq> d \<longrightarrow> filter ?P (?F y) = []"
      using date by (fastforce simp: filter_empty_conv)
  qed
  have 2: "filter ?P (?F d) = filter ?P (?G d c)"
  proof (rule filter_concat_single [OF assms(1) assms(5)])
    show "\<forall>y \<in> set (court_ids r). y \<noteq> c \<longrightarrow> filter ?P (?G d y) = []"
      by (auto simp: filter_empty_conv)
  qed
  have 3: "filter ?P (?G d c) = ?G d c"
    using date by (auto simp: filter_id_conv)
  show ?thesis
    unfolding spec_grid_def 1 2 3 ..
qed


lemma timedelta_minutes_in_range:
  assumes "0 \<le> n" and "minutes n \<le> max_datetime - min_datetime"
  shows "timedelta_minutes n = Inr (minutes n)"
proof -
  have "n * 60000000 \<le> 315537897599999999"
    using assms(2) by (simp add: minutes_def max_datetime_def min_datetime_def)
  then have "n div 1440 \<le> 999999999" by arith
  moreover have "- 999999999 \<le> n div 1440"
    using assms(1) by arith
  ultimately show ?thesis
    by (simp add: timedelta_minutes_def)
qed

lemma bulk_create_returns:
  assumes "strptime_HM (daily_start_time r) = Inr daily_open"
      and "strptime_HM (daily_end_time r) = Inr daily_close"
      and "0 < slot_duration_minutes r" and "0 \<le> break_duration_minutes r"
      and "ok \<longrightarrow> valid_datetime (start_date r) \<and> valid_datetime (end_date r) \<and>
                 date_of (end_date r) < max_date \<and>
                 combine (date_of (end_date r)) daily_close
                   + minutes (slot_duration_minutes r) + minutes (break_duration_minutes r)
                   \<le> max_datetime"
  shows "\<exists>res. bulk_create_time_slots s r = Some res \<and>
           (res = persist_drafts (bulk_tournament_id r) s [] (spec_grid r daily_open daily_close) \<or>
            \<not> ok \<and> (\<exists>s'. res = (Inl OverflowError, s')))"
proof -
  have pos: "0 < minutes (slot_duration_minutes r)" "0 \<le> minutes (break_duration_minutes r)"
    using assms(3,4) by (simp_all add: minutes_def)
  have o: "0 \<le> daily_open" using strptime_HM_range [OF assms(1)] by simp
  have c0: "0 \<le> daily_close" using strptime_HM_range [OF assms(2)] by simp
  have range: "ok \<longrightarrow>
             timedelta_minutes (slot_duration_minutes r) = Inr (minutes (slot_duration_minutes r)) \<and>
             timedelta_minutes (break_duration_minutes r) = Inr (minutes (break_duration_minutes r)) \<and>
             min_date \<le> date_of (start_date r) \<and> date_of (end_date r) < max_date \<and>
             0 \<le> daily_open \<and>
             combine (date_of (end_date r)) daily_close + minutes (slot_duration_minutes r)
               + minutes (break_duration_minutes r) \<le> max_datetime"
  proof
    assume ok
    with assms(5) have vs: "min_datetime \<le> start_date r" and ve: "min_datetime \<le> end_date r"
      and last: "date_of (end_date r) < max_date"
      and hi: "combine (date_of (end_date r)) daily_close
                   + minutes (slot_duration_minutes r) + minutes (break_duration_minutes r)
                   \<le> max_datetime"
      by (simp_all add: valid_datetime_def)
    have first: "min_date \<le> date_of (start_date r)"
      using vs by (simp add: date_of_def min_datetime_def min_date_def day_length_def)
    have "min_date \<le> date_of (end_date r)"
      using ve by (simp add: date_of_def min_datetime_def min_date_def day_length_def)
    then have lo: "min_datetime \<le> combine (date_of (end_date r)) daily_close"
      using c0 by (simp add: combine_def min_datetime_def min_date_def day_length_def)
    have d: "minutes (slot_duration_minutes r) \<le> max_datetime - min_datetime"
      using hi lo pos by simp
    have b: "minutes (break_duration_minutes r) \<le> max_datetime - min_datetime"
      using hi lo pos by simp
    have td: "timedelta_minutes (slot_duration_minutes r) = Inr (minutes (slot_duration_minutes r))"
      using assms(3) d by (simp add: timedelta_minutes_in_range)
    have tb: "timedelta_minutes (break_duration_minutes r)
                = Inr (minutes (break_duration_minutes r))"
      using assms(4) b by (simp add: timedelta_minutes_in_range)
    from td tb first last o hi
    show "timedelta_minutes (slot_duration_minutes r) = Inr (minutes (slot_duration_minutes r)) \<and>
             timedelta_minutes (break_duration_minutes r) = Inr (minutes (break_duration_minutes r)) \<and>
             min_date \<le> date_of (start_date r) \<and> date_of (end_date r) < max_date \<and>
             0 \<le> daily_open \<and>
             combine (date_of (end_date r)) daily_close + minutes (slot_duration_minutes r)
               + minutes (break_duration_minutes r) \<le> max_datetime"
      by simp
  qed
  from days_loop_returns [OF pos range, of s "[]"] show ?thesis
    by (simp add: bulk_create_time_slots_def assms(1,2) spec_grid_def spec_days_def)
qed

lemma bulk_create_accepts:
  assumes "strptime_HM (daily_start_time r) = Inr daily_open"
      and "strptime_HM (daily_end_time r) = Inr daily_close"
      and "0 < slot_duration_minutes r" and "0 \<le> break_duration_minutes r"
      and "bulk_tournament_id r \<in> set (tournaments s)"
      and "set (court_ids r) \<subseteq> set (courts s)"
      and "distinct (court_ids r)"
      and "\<forall>row \<in> set (time_slots s).
             (slot_court_id row, slot_start_time row, slot_end_time row)
               \<notin> set (spec_grid r daily_open daily_close)"
      and "\<forall>row \<in> set (time_slots s). slot_id row < time_slots_id_seq s"
      and "valid_datetime (start_date r)" and "valid_datetime (end_date r)"
      and "date_of (end_date r) < max_date"
      and "combine (date_of (end_date r)) daily_close
             + minutes (slot_duration_minutes r) + minutes (break_duration_minutes r)
             \<le> max_datetime"
  shows "bulk_create_time_slots s r =
           Some (Inr (draft_rows (bulk_tournament_id r) (time_slots_id_seq s)
                        (spec_grid r daily_open daily_close)),
                 s\<lparr>time_slots_id_seq :=
                      time_slots_id_seq s + int (length (spec_grid r daily_open daily_close)),
                   time_slots := time_slots s @
                      draft_rows (bulk_tournament_id r) (time_slots_id_seq s)
                        (spec_grid r daily_open daily_close)\<rparr>)"
proof -
  have o: "0 \<le> daily_open" using strptime_HM_range [OF assms(1)] by simp
  have c: "daily_close \<le> day_length" using strptime_HM_range [OF assms(2)] by simp
  have d: "distinct (spec_grid r daily_open daily_close)"
    by (rule spec_grid_distinct [OF assms(7) o c])
  have k: "\<forall>k \<in> set (spec_grid r daily_open daily_close). fst k \<in> set (courts s)"
    using assms(6) by (auto simp: spec_grid_mem)
  have range: "True \<longrightarrow> valid_datetime (start_date r) \<and> valid_datetime (end_date r) \<and>
                 date_of (end_date r) < max_date \<and>
                 combine (date_of (end_date r)) daily_close
                   + minutes (slot_duration_minutes r) + minutes (break_duration_minutes r)
                   \<le> max_datetime"
    using assms(10-13) by simp
  from bulk_create_returns [OF assms(1-4) range, of s]
  have "bulk_create_time_slots s r =
          Some (persist_drafts (bulk_tournament_id r) s [] (spec_grid r daily_open daily_close))"
    by auto
  then show ?thesis
    using persist_drafts_accepts [OF assms(5) k d assms(8,9), of "[]"] by simp
qed


lemma set_spec_days:
  "set (spec_days r) =
     {d. date_of (start_date r) \<le> d \<and> d \<le> date_of (end_date r) \<and>
         weekday d \<notin> set (exclude_days r)}"
  by (auto simp: spec_days_def)

lemma persist_drafts_Inr:
  assumes "persist_drafts tid s created keys = (Inr out, s')"
  shows "\<exists>rows. out = created @ rows \<and> time_slots s' = time_slots s @ rows \<and>
           map (\<lambda>row. (slot_court_id row, slot_start_time row, slot_end_time row)) rows = keys \<and>
           (\<forall>row \<in> set rows. slot_is_available row \<and> slot_match_id row = None \<and>
                              slot_tournament_id row = tid)"
  using assms
proof (induction keys arbitrary: s created)
  case Nil
  then show ?case by simp
next
  case (Cons k keys)
  obtain c a b where k: "k = (c, a, b)" by (cases k) auto
  let ?v = "\<lparr>ins_tournament_id = tid, ins_court_id = c, ins_start_time = a,
              ins_end_time = b, ins_is_available = True, ins_match_id = None\<rparr>"
  obtain res s1 where ins: "insert_time_slot s ?v = (res, s1)"
    by (cases "insert_time_slot s ?v") auto
  show ?case
  proof (cases res)
    case (Inl e)
    with Cons.prems ins show ?thesis by (simp add: k)
  next
    case (Inr row)
    note facts = insert_time_slot_Inr [OF ins [unfolded Inr]]
    have rec: "persist_drafts tid s1 (created @ [row]) keys = (Inr out, s')"
      using Cons.prems ins Inr by (simp add: k)
    from Cons.IH [OF rec] obtain rows where
      o: "out = (created @ [row]) @ rows" and t: "time_slots s' = time_slots s1 @ rows"
      and m: "map (\<lambda>row. (slot_court_id row, slot_start_time row, slot_end_time row)) rows = keys"
      and p: "\<forall>row \<in> set rows. slot_is_available row \<and> slot_match_id row = None \<and>
                              slot_tournament_id row = tid"
      by blast
    have t1: "time_slots s1 = time_slots s @ [row]" using facts(2) by simp
    have r: "slot_court_id row = c \<and> slot_start_time row = a \<and> slot_end_time row = b \<and>
             slot_is_available row \<and> slot_match_id row = None \<and> slot_tournament_id row = tid"
      using facts(1) by simp
    show ?thesis
      by (rule exI [of _ "row # rows"]) (simp add: o t t1 m p r k)
  qed
qed

lemma rows_in_grid:
  assumes "map (\<lambda>row. (slot_court_id row, slot_start_time row, slot_end_time row)) rows
             = spec_grid r daily_open daily_close"
      and "0 \<le> daily_open" and "daily_close \<le> day_length"
      and "row \<in> set rows"
  shows "slot_court_id row \<in> set (court_ids r) \<and>
         date_of (slot_start_time row) \<in> set (spec_days r) \<and>
         slot_end_time row = slot_start_time row + minutes (slot_duration_minutes r) \<and>
         combine (date_of (slot_start_time row)) daily_open \<le> slot_start_time row \<and>
         slot_end_time row \<le> combine (date_of (slot_start_time row)) daily_close"
proof -
  have "(slot_court_id row, slot_start_time row, slot_end_time row)
          \<in> set (map (\<lambda>row. (slot_court_id row, slot_start_time row, slot_end_time row)) rows)"
    using assms(4) by (simp add: image_iff) blast
  then have "(slot_court_id row, slot_start_time row, slot_end_time row)
          \<in> set (spec_grid r daily_open daily_close)"
    by (simp only: assms(1))
  then obtain d where d: "d \<in> set (spec_days r)" and c: "slot_court_id row \<in> set (court_ids r)"
    and w: "(slot_start_time row, slot_end_time row)
              \<in> set (spec_day_slots (combine d daily_open) (combine d daily_close)
                      (minutes (slot_duration_minutes r)) (minutes (break_duration_minutes r)))"
    unfolding spec_grid_mem by blast
  have dt: "date_of (slot_start_time row) = d"
    by (rule spec_day_slots_date [OF w assms(2,3)])
  from spec_day_slots_mem [OF w] d c show ?thesis
    unfolding dt by simp
qed

lemma rows_per_court_and_day:
  assumes "map (\<lambda>row. (slot_court_id row, slot_start_time row, slot_end_time row)) rows
             = spec_grid r daily_open daily_close"
      and "distinct (court_ids r)" and "0 \<le> daily_open" and "daily_close \<le> day_length"
      and "d \<in> set (spec_days r)" and "c \<in> set (court_ids r)"
  shows "map (\<lambda>row. (slot_start_time row, slot_end_time row))
           (filter (\<lambda>row. slot_court_id row = c \<and> date_of (slot_start_time row) = d) rows)
         = spec_day_slots (combine d daily_open) (combine d daily_close)
             (minutes (slot_duration_minutes r)) (minutes (break_duration_minutes r))"
proof -
  let ?key = "\<lambda>row. (slot_court_id row, slot_start_time row, slot_end_time row)"
  let ?P = "\<lambda>k. fst k = c \<and> date_of (fst (snd k)) = d"
  have "map (\<lambda>row. (slot_start_time row, slot_end_time row))
           (filter (\<lambda>row. slot_court_id row = c \<and> date_of (slot_start_time row) = d) rows)
        = map snd (filter ?P (map ?key rows))"
    by (simp add: filter_map comp_def)
  also have "\<dots> = map snd (filter ?P (spec_grid r daily_open daily_close))"
    by (simp only: assms(1))
  also have "\<dots> = spec_day_slots (combine d daily_open) (combine d daily_close)
             (minutes (slot_duration_minutes r)) (minutes (break_duration_minutes r))"
    unfolding spec_grid_filter [OF assms(2-6)] by (simp add: comp_def)
  finally show ?thesis .
qed

lemma bulk_create_Inr:
  assumes "strptime_HM (daily_start_time r) = Inr daily_open"
      and "strptime_HM (daily_end_time r) = Inr daily_close"
      and "0 < slot_duration_minutes r" and "0 \<le> break_duration_minutes r"
      and "bulk_create_time_slots s r = Some (Inr created, s')"
  shows "time_slots s' = time_slots s @ created \<and>
         map (\<lambda>row. (slot_court_id row, slot_start_time row, slot_end_time row)) created
           = spec_grid r daily_open daily_close \<and>
         (\<forall>row \<in> set created. slot_is_available row \<and> slot_match_id row = None \<and>
                                 slot_tournament_id row = bulk_tournament_id r)"
proof -
  have range: "False \<longrightarrow> valid_datetime (start_date r) \<and> valid_datetime (end_date r) \<and>
                 date_of (end_date r) < max_date \<and>
                 combine (date_of (end_date r)) daily_close
                   + minutes (slot_duration_minutes r) + minutes (break_duration_minutes r)
                   \<le> max_datetime"
    by simp
  from bulk_create_returns [OF assms(1-4) range, of s]
  have "persist_drafts (bulk_tournament_id r) s [] (spec_grid r daily_open daily_close)
          = (Inr created, s')"
    using assms(5) by auto
  from persist_drafts_Inr [OF this] show ?thesis by auto
qed

lemma bulk_create_total:
  assumes "strptime_HM (daily_start_time r) = Inr daily_open"
      and "strptime_HM (daily_end_time r) = Inr daily_close"
      and "0 < slot_duration_minutes r" and "0 \<le> break_duration_minutes r"
  shows "\<exists>result. bulk_create_time_slots s r = Some result"
proof -
  have range: "False \<longrightarrow> valid_datetime (start_date r) \<and> valid_datetime (end_date r) \<and>
                 date_of (end_date r) < max_date \<and>
                 combine (date_of (end_date r)) daily_close
                   + minutes (slot_duration_minutes r) + minutes (break_duration_minutes r)
                   \<le> max_datetime"
    by simp
  from bulk_create_returns [OF assms(1-4) range, of s] show ?thesis by blast
qed


lemma ex_parse:
  "strptime_HM ''09:00'' = Inr 32400000000"
  "strptime_HM ''12:00'' = Inr 43200000000"
  "strptime_HM ''09:30'' = Inr 34200000000"
  "strptime_HM ''11:00'' = Inr 39600000000"
  by (simp_all add: strptime_defs)

text \<open>
  A break that carries the cursor out of the range of \<open>datetime\<close> ends the request with an
  \<open>OverflowError\<close> after the first insert, which stays in the table.
\<close>

lemma bulk_create_overflow_example:
  "bulk_create_time_slots ex_empty_store ex_bulk_request_far =
     Some (Inl OverflowError,
           ex_empty_store\<lparr>time_slots :=
             [\<lparr>slot_id = 1, slot_tournament_id = 1, slot_court_id = 7,
               slot_start_time = 32400000000, slot_end_time = 36000000000,
               slot_is_available = True, slot_match_id = None\<rparr>],
             time_slots_id_seq := 2\<rparr>)"
  by (simp add: bulk_create_time_slots_def ex_bulk_request_far_def ex_parse date_of_def
        day_length_def weekday_def combine_def days_loop.simps slot_loop.simps minutes_def
        add_minutes_def timedelta_minutes_def datetime_add_def next_day_def min_date_def
        max_date_def min_datetime_def max_datetime_def
        insert_time_slot_def Let_def ex_empty_store_def)

text \<open>
  C4. For a request in the spec's input domain (duration \<open>> 0\<close>, break \<open>\<ge> 0\<close>, times of
  day that parse, distinct courts) the generator ends, with the created slots or with an
  exception. Whenever it returns the created slots, they are appended to the table, and for every calendar day from the start date to
  the end date inclusive whose weekday is not excluded, and every court, the slots created
  for that court on that day are exactly the cursor walk from \<open>daily_open\<close>:
  \<open>[cursor, cursor + duration)\<close> while \<open>cursor + duration \<le> daily_close\<close>, the cursor
  advancing by \<open>duration + break\<close>. Every created slot is on a requested court and such a
  day, has the full duration and lies within the daily window; when the duration exceeds
  the window nothing is created. It does return the created slots when the store accepts
  every insert (the tournament and courts exist, no persisted slot has the court and bounds
  of a generated one, and the id sequence is ahead of the table) and the date arithmetic
  stays in the range of \<open>datetime\<close>: the end date is before 9999-12-31, and the daily
  close of the end date plus one duration and one break is no later than the last instant
  of the calendar. Otherwise the request may end with an exception, of the store or an
  \<open>OverflowError\<close>.
\<close>

theorem bulk_create_walks_cursor:
  assumes "strptime_HM (daily_start_time r) = Inr daily_open"
      and "strptime_HM (daily_end_time r) = Inr daily_close"
      and "0 < slot_duration_minutes r" and "0 \<le> break_duration_minutes r"
      and "distinct (court_ids r)"
  shows "(\<exists>result. bulk_create_time_slots s r = Some result)
       \<and> (\<forall>created s'. bulk_create_time_slots s r = Some (Inr created, s') \<longrightarrow>
              time_slots s' = time_slots s @ created \<and>
              (\<forall>d. date_of (start_date r) \<le> d \<and> d \<le> date_of (end_date r) \<and>
                  weekday d \<notin> set (exclude_days r) \<longrightarrow>
                (\<forall>c \<in> set (court_ids r).
                   map (\<lambda>row. (slot_start_time row, slot_end_time row))
                     (filter (\<lambda>row. slot_court_id row = c \<and> date_of (slot_start_time row) = d)
                        created)
                   = spec_day_slots (combine d daily_open) (combine d daily_close)
                       (minutes (slot_duration_minutes r))
                       (minutes (break_duration_minutes r)))) \<and>
              (\<forall>row \<in> set created.
                slot_court_id row \<in> set (court_ids r) \<and>
                date_of (start_date r) \<le> date_of (slot_start_time row) \<and>
                date_of (slot_start_time row) \<le> date_of (end_date r) \<and>
                weekday (date_of (slot_start_time row)) \<notin> set (exclude_days r) \<and>
                slot_end_time row = slot_start_time row + minutes (slot_duration_minutes r) \<and>
                combine (date_of (slot_start_time row)) daily_open \<le> slot_start_time row \<and>
                slot_end_time row \<le> combine (date_of (slot_start_time row)) daily_close) \<and>
              (daily_close - daily_open < minutes (slot_duration_minutes r) \<longrightarrow> created = []))
       \<and> (bulk_tournament_id r \<in> set (tournaments s) \<and>
          set (court_ids r) \<subseteq> set (courts s) \<and>
          (\<forall>row \<in> set (time_slots s).
             (slot_court_id row, slot_start_time row, slot_end_time row)
               \<notin> set (spec_grid r daily_open daily_close)) \<and>
          (\<forall>row \<in> set (time_slots s). slot_id row < time_slots_id_seq s) \<and>
          valid_datetime (start_date r) \<and> valid_datetime (end_date r) \<and>
          date_of (end_date r) < max_date \<and>
          combine (date_of (end_date r)) daily_close
            + minutes (slot_duration_minutes r) + minutes (break_duration_minutes r)
            \<le> max_datetime \<longrightarrow>
          (\<exists>created s'. bulk_create_time_slots s r = Some (Inr created, s')))"
proof -
  have o: "0 \<le> daily_open" using strptime_HM_range [OF assms(1)] by simp
  have c: "daily_close \<le> day_length" using strptime_HM_range [OF assms(2)] by simp
  have ret: "\<exists>result. bulk_create_time_slots s r = Some result"
    by (rule bulk_create_total [OF assms(1-4)])
  have props: "time_slots s' = time_slots s @ created \<and>
              (\<forall>d. date_of (start_date r) \<le> d \<and> d \<le> date_of (end_date r) \<and>
                  weekday d \<notin> set (exclude_days r) \<longrightarrow>
                (\<forall>c \<in> set (court_ids r).
                   map (\<lambda>row. (slot_start_time row, slot_end_time row))
                     (filter (\<lambda>row. slot_court_id row = c \<and> date_of (slot_start_time row) = d)
                        created)
                   = spec_day_slots (combine d daily_open) (combine d daily_close)
                       (minutes (slot_duration_minutes r))
                       (minutes (break_duration_minutes r)))) \<and>
              (\<forall>row \<in> set created.
                slot_court_id row \<in> set (court_ids r) \<and>
                date_of (start_date r) \<le> date_of (slot_start_time row) \<and>
                date_of (slot_start_time row) \<le> date_of (end_date r) \<and>
                weekday (date_of (slot_start_time row)) \<notin> set (exclude_days r) \<and>
                slot_end_time row = slot_start_time row + minutes (slot_duration_minutes r) \<and>
                combine (date_of (slot_start_time row)) daily_open \<le> slot_start_time row \<and>
                slot_end_time row \<le> combine (date_of (slot_start_time row)) daily_close) \<and>
              (daily_close - daily_open < minutes (slot_duration_minutes r) \<longrightarrow> created = [])"
    if b: "bulk_create_time_slots s r = Some (Inr created, s')" for created s'
  proof -
    note f = bulk_create_Inr [OF assms(1-4) b]
    have g: "map (\<lambda>row. (slot_court_id row, slot_start_time row, slot_end_time row)) created
           = spec_grid r daily_open daily_close"
      using f by blast
    have 1: "time_slots s' = time_slots s @ created" using f by blast
    have 2: "(\<forall>d. date_of (start_date r) \<le> d \<and> d \<le> date_of (end_date r) \<and>
                  weekday d \<notin> set (exclude_days r) \<longrightarrow>
                (\<forall>c \<in> set (court_ids r).
                   map (\<lambda>row. (slot_start_time row, slot_end_time row))
                     (filter (\<lambda>row. slot_court_id row = c \<and> date_of (slot_start_time row) = d)
                        created)
                   = spec_day_slots (combine d daily_open) (combine d daily_close)
                       (minutes (slot_duration_minutes r))
                       (minutes (break_duration_minutes r))))"
      using rows_per_court_and_day [OF g assms(5) o c] by (simp add: set_spec_days)
    have 3: "(\<forall>row \<in> set created.
                slot_court_id row \<in> set (court_ids r) \<and>
                date_of (start_date r) \<le> date_of (slot_start_time row) \<and>
                date_of (slot_start_time row) \<le> date_of (end_date r) \<and>
                weekday (date_of (slot_start_time row)) \<notin> set (exclude_days r) \<and>
                slot_end_time row = slot_start_time row + minutes (slot_duration_minutes r) \<and>
                combine (date_of (slot_start_time row)) daily_open \<le> slot_start_time row \<and>
                slot_end_time row \<le> combine (date_of (slot_start_time row)) daily_close)"
    proof
      fix row
      assume "row \<in> set created"
      from rows_in_grid [OF g o c this]
      show "slot_court_id row \<in> set (court_ids r) \<and>
                date_of (start_date r) \<le> date_of (slot_start_time row) \<and>
                date_of (slot_start_time row) \<le> date_of (end_date r) \<and>
                weekday (date_of (slot_start_time row)) \<notin> set (exclude_days r) \<and>
                slot_end_time row = slot_start_time row + minutes (slot_duration_minutes r) \<and>
                combine (date_of (slot_start_time row)) daily_open \<le> slot_start_time row \<and>
                slot_end_time row \<le> combine (date_of (slot_start_time row)) daily_close"
        by (simp add: set_spec_days)
    qed
    have 4: "(daily_close - daily_open < minutes (slot_duration_minutes r) \<longrightarrow> created = [])"
    proof
      assume "daily_close - daily_open < minutes (slot_duration_minutes r)"
      then have "length (spec_grid r daily_open daily_close) = 0"
        unfolding length_spec_grid [OF assms(3,4)] by (simp add: spec_slots_per_day_def)
      then show "created = []"
        using arg_cong [OF g, of length] by simp
    qed
    from 1 2 3 4 show ?thesis by blast
  qed
  have acc: "bulk_tournament_id r \<in> set (tournaments s) \<and>
          set (court_ids r) \<subseteq> set (courts s) \<and>
          (\<forall>row \<in> set (time_slots s).
             (slot_court_id row, slot_start_time row, slot_end_time row)
               \<notin> set (spec_grid r daily_open daily_close)) \<and>
          (\<forall>row \<in> set (time_slots s). slot_id row < time_slots_id_seq s) \<and>
          valid_datetime (start_date r) \<and> valid_datetime (end_date r) \<and>
          date_of (end_date r) < max_date \<and>
          combine (date_of (end_date r)) daily_close
            + minutes (slot_duration_minutes r) + minutes (break_duration_minutes r)
            \<le> max_datetime \<longrightarrow>
          (\<exists>created s'. bulk_create_time_slots s r = Some (Inr created, s'))"
  proof (intro impI, elim conjE)
    assume a: "bulk_tournament_id r \<in> set (tournaments s)"
       and b: "set (court_ids r) \<subseteq> set (courts s)"
       and c: "\<forall>row \<in> set (time_slots s).
             (slot_court_id row, slot_start_time row, slot_end_time row)
               \<notin> set (spec_grid r daily_open daily_close)"
       and d: "\<forall>row \<in> set (time_slots s). slot_id row < time_slots_id_seq s"
       and v: "valid_datetime (start_date r)" "valid_datetime (end_date r)"
              "date_of (end_date r) < max_date"
              "combine (date_of (end_date r)) daily_close
                 + minutes (slot_duration_minutes r) + minutes (break_duration_minutes r)
                 \<le> max_datetime"
    show "\<exists>created s'. bulk_create_time_slots s r = Some (Inr created, s')"
      using bulk_create_accepts [OF assms(1-4) a b assms(5) c d v] by blast
  qed
  from ret props acc show ?thesis by blast
qed

theorem bulk_create_walks_cursor_witness:
  "\<exists>created s'.
     bulk_create_time_slots ex_empty_store ex_bulk_request_90 = Some (Inr created, s') \<and>
     time_slots s' = created \<and>
     map (\<lambda>row. (slot_start_time row, slot_end_time row))
       (filter (\<lambda>row. slot_court_id row = 7 \<and> date_of (slot_start_time row) = 0) created)
       = [(32400000000, 37800000000)]"
proof -
  have h1: "strptime_HM (daily_start_time ex_bulk_request_90) = Inr 32400000000"
    by (simp add: ex_bulk_request_90_def ex_parse)
  have h2: "strptime_HM (daily_end_time ex_bulk_request_90) = Inr 43200000000"
    by (simp add: ex_bulk_request_90_def ex_parse)
  have h3: "0 < slot_duration_minutes ex_bulk_request_90"
    and h4: "0 \<le> break_duration_minutes ex_bulk_request_90"
    and h5: "distinct (court_ids ex_bulk_request_90)"
    by (simp_all add: ex_bulk_request_90_def)
  have acc: "bulk_tournament_id ex_bulk_request_90 \<in> set (tournaments ex_empty_store) \<and>
          set (court_ids ex_bulk_request_90) \<subseteq> set (courts ex_empty_store) \<and>
          (\<forall>row \<in> set (time_slots ex_empty_store).
             (slot_court_id row, slot_start_time row, slot_end_time row)
               \<notin> set (spec_grid ex_bulk_request_90 32400000000 43200000000)) \<and>
          (\<forall>row \<in> set (time_slots ex_empty_store). slot_id row < time_slots_id_seq ex_empty_store) \<and>
          valid_datetime (start_date ex_bulk_request_90) \<and> valid_datetime (end_date ex_bulk_request_90) \<and>
          date_of (end_date ex_bulk_request_90) < max_date \<and>
          combine (date_of (end_date ex_bulk_request_90)) 43200000000
            + minutes (slot_duration_minutes ex_bulk_request_90) + minutes (break_duration_minutes ex_bulk_request_90)
            \<le> max_datetime"
    by (simp add: ex_bulk_request_90_def ex_empty_store_def valid_datetime_def min_datetime_def
          max_datetime_def max_date_def date_of_def combine_def day_length_def minutes_def)
  note T = bulk_create_walks_cursor [OF h1 h2 h3 h4 h5, of ex_empty_store]
  from T [THEN conjunct2, THEN conjunct2, THEN mp, OF acc]
  obtain created s' where
    b: "bulk_create_time_slots ex_empty_store ex_bulk_request_90 = Some (Inr created, s')"
    by blast
  note P = T [THEN conjunct2, THEN conjunct1, THEN spec, THEN spec, THEN mp, OF b]
  have t: "time_slots s' = time_slots ex_empty_store @ created"
    using P by (rule conjunct1)
  have walk: "spec_day_slots (combine 0 32400000000) (combine 0 43200000000)
                (minutes (slot_duration_minutes ex_bulk_request_90))
                (minutes (break_duration_minutes ex_bulk_request_90))
              = [(32400000000, 37800000000)]"
    by (simp add: spec_day_slots.simps combine_def minutes_def ex_bulk_request_90_def)
  have d0: "date_of (start_date ex_bulk_request_90) \<le> 0 \<and>
            0 \<le> date_of (end_date ex_bulk_request_90) \<and>
            weekday 0 \<notin> set (exclude_days ex_bulk_request_90)"
    by (simp add: ex_bulk_request_90_def date_of_def weekday_def)
  have c7: "7 \<in> set (court_ids ex_bulk_request_90)"
    by (simp add: ex_bulk_request_90_def)
  have r: "map (\<lambda>row. (slot_start_time row, slot_end_time row))
       (filter (\<lambda>row. slot_court_id row = 7 \<and> date_of (slot_start_time row) = 0) created)
       = [(32400000000, 37800000000)]"
    using P [THEN conjunct2, THEN conjunct1, THEN spec, of 0, THEN mp, OF d0, THEN bspec, OF c7]
    unfolding walk .
  have t': "time_slots s' = created"
    using t by (simp add: ex_empty_store_def)
  show ?thesis
    by (rule exI [of _ created], rule exI [of _ s']) (simp add: b t' r)
qed

text \<open>
  C5. For a request in the same domain, whenever the generator returns the created slots
  there are exactly N \<times> D \<times> S of them, for N courts, D days of the inclusive date range
  that are not excluded and S slots fitting into the daily window (\<open>0\<close> when the duration
  exceeds it, else \<open>(close - open - duration) div (duration + break) + 1\<close>). All are
  available and hold no match, no (court, start, end) occurs twice, and on each such day
  any two courts of the request get the same time ranges; the table afterwards is the old
  table followed by these slots. It does return them when the store accepts every insert
  and the date arithmetic stays in the range of \<open>datetime\<close>, as for C4.
\<close>

theorem bulk_create_count:
  assumes "strptime_HM (daily_start_time r) = Inr daily_open"
      and "strptime_HM (daily_end_time r) = Inr daily_close"
      and "0 < slot_duration_minutes r" and "0 \<le> break_duration_minutes r"
      and "distinct (court_ids r)"
  shows "(\<exists>result. bulk_create_time_slots s r = Some result)
       \<and> (\<forall>created s'. bulk_create_time_slots s r = Some (Inr created, s') \<longrightarrow>
              time_slots s' = time_slots s @ created \<and>
              length created =
                length (court_ids r) * length (spec_days r) *
                spec_slots_per_day daily_open daily_close
                  (minutes (slot_duration_minutes r)) (minutes (break_duration_minutes r)) \<and>
              (\<forall>row \<in> set created. slot_is_available row \<and> slot_match_id row = None) \<and>
              distinct (map (\<lambda>row. (slot_court_id row, slot_start_time row, slot_end_time row))
                          created) \<and>
              (\<forall>d \<in> set (spec_days r). \<forall>c \<in> set (court_ids r). \<forall>c' \<in> set (court_ids r).
                 map (\<lambda>row. (slot_start_time row, slot_end_time row))
                   (filter (\<lambda>row. slot_court_id row = c \<and> date_of (slot_start_time row) = d)
                      created)
                 = map (\<lambda>row. (slot_start_time row, slot_end_time row))
                   (filter (\<lambda>row. slot_court_id row = c' \<and> date_of (slot_start_time row) = d)
                      created)))
       \<and> (bulk_tournament_id r \<in> set (tournaments s) \<and>
          set (court_ids r) \<subseteq> set (courts s) \<and>
          (\<forall>row \<in> set (time_slots s).
             (slot_court_id row, slot_start_time row, slot_end_time row)
               \<notin> set (spec_grid r daily_open daily_close)) \<and>
          (\<forall>row \<in> set (time_slots s). slot_id row < time_slots_id_seq s) \<and>
          valid_datetime (start_date r) \<and> valid_datetime (end_date r) \<and>
          date_of (end_date r) < max_date \<and>
          combine (date_of (end_date r)) daily_close
            + minutes (slot_duration_minutes r) + minutes (break_duration_minutes r)
            \<le> max_datetime \<longrightarrow>
          (\<exists>created s'. bulk_create_time_slots s r = Some (Inr created, s')))"
proof -
  have o: "0 \<le> daily_open" using strptime_HM_range [OF assms(1)] by simp
  have c: "daily_close \<le> day_length" using strptime_HM_range [OF assms(2)] by simp
  have ret: "\<exists>result. bulk_create_time_slots s r = Some result"
    by (rule bulk_create_total [OF assms(1-4)])
  have props: "time_slots s' = time_slots s @ created \<and>
              length created =
                length (court_ids r) * length (spec_days r) *
                spec_slots_per_day daily_open daily_close
                  (minutes (slot_duration_minutes r)) (minutes (break_duration_minutes r)) \<and>
              (\<forall>row \<in> set created. slot_is_available row \<and> slot_match_id row = None) \<and>
              distinct (map (\<lambda>row. (slot_court_id row, slot_start_time row, slot_end_time row))
                          created) \<and>
              (\<forall>d \<in> set (spec_days r). \<forall>c \<in> set (court_ids r). \<forall>c' \<in> set (court_ids r).
                 map (\<lambda>row. (slot_start_time row, slot_end_time row))
                   (filter (\<lambda>row. slot_court_id row = c \<and> date_of (slot_start_time row) = d)
                      created)
                 = map (\<lambda>row. (slot_start_time row, slot_end_time row))
                   (filter (\<lambda>row. slot_court_id row = c' \<and> date_of (slot_start_time row) = d)
                      created))"
    if b: "bulk_create_time_slots s r = Some (Inr created, s')" for created s'
  proof -
    note f = bulk_create_Inr [OF assms(1-4) b]
    have g: "map (\<lambda>row. (slot_court_id row, slot_start_time row, slot_end_time row)) created
           = spec_grid r daily_open daily_close"
      using f by blast
    have 1: "length created =
                length (court_ids r) * length (spec_days r) *
                spec_slots_per_day daily_open daily_close
                  (minutes (slot_duration_minutes r)) (minutes (break_duration_minutes r))"
      using arg_cong [OF g, of length] length_spec_grid [OF assms(3,4), of daily_open daily_close]
      by simp
    have 2: "(\<forall>row \<in> set created. slot_is_available row \<and> slot_match_id row = None)" using f by blast
    have 3: "distinct (map (\<lambda>row. (slot_court_id row, slot_start_time row, slot_end_time row))
                          created)"
      unfolding g by (rule spec_grid_distinct [OF assms(5) o c])
    have 4: "(\<forall>d \<in> set (spec_days r). \<forall>c \<in> set (court_ids r). \<forall>c' \<in> set (court_ids r).
                 map (\<lambda>row. (slot_start_time row, slot_end_time row))
                   (filter (\<lambda>row. slot_court_id row = c \<and> date_of (slot_start_time row) = d)
                      created)
                 = map (\<lambda>row. (slot_start_time row, slot_end_time row))
                   (filter (\<lambda>row. slot_court_id row = c' \<and> date_of (slot_start_time row) = d)
                      created))"
      using rows_per_court_and_day [OF g assms(5) o c] by simp
    have 0: "time_slots s' = time_slots s @ created" using f by blast
    from 0 1 2 3 4 show ?thesis by blast
  qed
  have acc: "bulk_tournament_id r \<in> set (tournaments s) \<and>
          set (court_ids r) \<subseteq> set (courts s) \<and>
          (\<forall>row \<in> set (time_slots s).
             (slot_court_id row, slot_start_time row, slot_end_time row)
               \<notin> set (spec_grid r daily_open daily_close)) \<and>
          (\<forall>row \<in> set (time_slots s). slot_id row < time_slots_id_seq s) \<and>
          valid_datetime (start_date r) \<and> valid_datetime (end_date r) \<and>
          date_of (end_date r) < max_date \<and>
          combine (date_of (end_date r)) daily_close
            + minutes (slot_duration_minutes r) + minutes (break_duration_minutes r)
            \<le> max_datetime \<longrightarrow>
          (\<exists>created s'. bulk_create_time_slots s r = Some (Inr created, s'))"
  proof (intro impI, elim conjE)
    assume a: "bulk_tournament_id r \<in> set (tournaments s)"
       and b: "set (court_ids r) \<subseteq> set (courts s)"
       and c: "\<forall>row \<in> set (time_slots s).
             (slot_court_id row, slot_start_time row, slot_end_time row)
               \<notin> set (spec_grid r daily_open daily_close)"
       and d: "\<forall>row \<in> set (time_slots s). slot_id row < time_slots_id_seq s"
       and v: "valid_datetime (start_date r)" "valid_datetime (end_date r)"
              "date_of (end_date r) < max_date"
              "combine (date_of (end_date r)) daily_close
                 + minutes (slot_duration_minutes r) + minutes (break_duration_minutes r)
                 \<le> max_datetime"
    show "\<exists>created s'. bulk_create_time_slots s r = Some (Inr created, s')"
      using bulk_create_accepts [OF assms(1-4) a b assms(5) c d v] by blast
  qed
  from ret props acc show ?thesis by blast
qed

theorem bulk_create_count_witness:
  "\<exists>created s'.
     bulk_create_time_slots ex_empty_store ex_bulk_request_grid = Some (Inr created, s') \<and>
     time_slots s' = created \<and> length created = 12"
proof -
  have h1: "strptime_HM (daily_start_time ex_bulk_request_grid) = Inr 32400000000"
    by (simp add: ex_bulk_request_grid_def ex_parse)
  have h2: "strptime_HM (daily_end_time ex_bulk_request_grid) = Inr 43200000000"
    by (simp add: ex_bulk_request_grid_def ex_parse)
  have h3: "0 < slot_duration_minutes ex_bulk_request_grid"
    and h4: "0 \<le> break_duration_minutes ex_bulk_request_grid"
    and h5: "distinct (court_ids ex_bulk_request_grid)"
    by (simp_all add: ex_bulk_request_grid_def)
  have acc: "bulk_tournament_id ex_bulk_request_grid \<in> set (tournaments ex_empty_store) \<and>
          set (court_ids ex_bulk_request_grid) \<subseteq> set (courts ex_empty_store) \<and>
          (\<forall>row \<in> set (time_slots ex_empty_store).
             (slot_court_id row, slot_start_time row, slot_end_time row)
               \<notin> set (spec_grid ex_bulk_request_grid 32400000000 43200000000)) \<and>
          (\<forall>row \<in> set (time_slots ex_empty_store). slot_id row < time_slots_id_seq ex_empty_store) \<and>
          valid_datetime (start_date ex_bulk_request_grid) \<and> valid_datetime (end_date ex_bulk_request_grid) \<and>
          date_of (end_date ex_bulk_request_grid) < max_date \<and>
          combine (date_of (end_date ex_bulk_request_grid)) 43200000000
            + minutes (slot_duration_minutes ex_bulk_request_grid) + minutes (break_duration_minutes ex_bulk_request_grid)
            \<le> max_datetime"
    by (simp add: ex_bulk_request_grid_def ex_empty_store_def valid_datetime_def min_datetime_def
          max_datetime_def max_date_def date_of_def combine_def day_length_def minutes_def)
  note T = bulk_create_count [OF h1 h2 h3 h4 h5, of ex_empty_store]
  from T [THEN conjunct2, THEN conjunct2, THEN mp, OF acc]
  obtain created s' where
    b: "bulk_create_time_slots ex_empty_store ex_bulk_request_grid = Some (Inr created, s')"
    by blast
  note P = T [THEN conjunct2, THEN conjunct1, THEN spec, THEN spec, THEN mp, OF b]
  have n: "length created =
             length (court_ids ex_bulk_request_grid) * length (spec_days ex_bulk_request_grid) *
             spec_slots_per_day 32400000000 43200000000
               (minutes (slot_duration_minutes ex_bulk_request_grid))
               (minutes (break_duration_minutes ex_bulk_request_grid))"
    using P [THEN conjunct2] by (rule conjunct1)
  have t: "time_slots s' = time_slots ex_empty_store @ created"
    using P by (rule conjunct1)
  have t': "time_slots s' = created"
    using t by (simp add: ex_empty_store_def)
  have days: "spec_days ex_bulk_request_grid = [0, 1]"
    by (simp add: spec_days_def ex_bulk_request_grid_def date_of_def day_length_def weekday_def
          upto.simps)
  have per_day: "spec_slots_per_day 32400000000 43200000000
               (minutes (slot_duration_minutes ex_bulk_request_grid))
               (minutes (break_duration_minutes ex_bulk_request_grid)) = 3"
    by (simp add: spec_slots_per_day_def minutes_def ex_bulk_request_grid_def)
  have "length created = 12"
    unfolding n days per_day by (simp add: ex_bulk_request_grid_def)
  with b t' show ?thesis by blast
qed

text \<open>
  C6. Bulk generation writes without a conflict check. On the example store, whose court 7
  holds a slot from 10:00 to 11:00, the bulk request creates a slot from 09:30 to 10:30 on
  the same court: the two intervals overlap, the conflict checker reports the old slot for
  the new bounds, and the single-slot create of the same slot is refused with status 409,
  as is a time update that moves the start of the 11:00 slot of the same court to 10:30.
\<close>

theorem bulk_create_skips_conflict_check:
  "bulk_create_time_slots ex_store ex_bulk_request = Some (Inr [ex_slot_bulk], ex_store_bulk) \<and>
   time_slots ex_store_bulk = [ex_slot, ex_slot_bulk] \<and>
   slot_court_id ex_slot_bulk = slot_court_id ex_slot \<and>
   slot_tournament_id ex_slot_bulk = slot_tournament_id ex_slot \<and>
   spec_overlaps (slot_start_time ex_slot) (slot_end_time ex_slot)
     (slot_start_time ex_slot_bulk) (slot_end_time ex_slot_bulk) \<and>
   check_slot_conflicts ex_store 1 7 (slot_start_time ex_slot_bulk) (slot_end_time ex_slot_bulk)
     None = [ex_slot] \<and>
   create_new_time_slot ex_store 1
     \<lparr>body_court_id = 7, body_start_time = 34200000000, body_end_time = 37800000000,
      body_is_available = True\<rparr> = (Inl (HTTPException 409), ex_store) \<and>
   update_time_slot_info ex_store_created 2 (no_updates\<lparr>upd_start_time := Some 37800000000\<rparr>)
     = (Inl (HTTPException 409), ex_store_created)"
proof -
  have 1: "bulk_create_time_slots ex_store ex_bulk_request = Some (Inr [ex_slot_bulk], ex_store_bulk)"
    by (simp add: bulk_create_time_slots_def ex_bulk_request_def ex_parse date_of_def
          day_length_def weekday_def combine_def days_loop.simps slot_loop.simps minutes_def
          add_minutes_def timedelta_minutes_def datetime_add_def next_day_def min_date_def
          max_date_def min_datetime_def max_datetime_def
          insert_time_slot_def Let_def ex_slot_defs ex_slot_bulk_def ex_store_bulk_def)
  have 2: "time_slots ex_store_bulk = [ex_slot, ex_slot_bulk]"
    by (simp add: ex_store_bulk_def)
  have 3: "slot_court_id ex_slot_bulk = slot_court_id ex_slot"
    and 4: "slot_tournament_id ex_slot_bulk = slot_tournament_id ex_slot"
    and 5: "spec_overlaps (slot_start_time ex_slot) (slot_end_time ex_slot)
              (slot_start_time ex_slot_bulk) (slot_end_time ex_slot_bulk)"
    by (simp_all add: ex_slot_def ex_slot_bulk_def spec_overlaps_def)
  have 6: "check_slot_conflicts ex_store 1 7 (slot_start_time ex_slot_bulk)
             (slot_end_time ex_slot_bulk) None = [ex_slot]"
    by (simp add: check_slot_conflicts_def ex_slot_defs ex_slot_bulk_def)
  have 7: "create_new_time_slot ex_store 1
     \<lparr>body_court_id = 7, body_start_time = 34200000000, body_end_time = 37800000000,
      body_is_available = True\<rparr> = (Inl (HTTPException 409), ex_store)"
    by (simp add: create_new_time_slot_def check_slot_conflicts_def ex_slot_defs Let_def
          HTTP_409_CONFLICT_def)
  have 8: "update_time_slot_info ex_store_created 2
             (no_updates\<lparr>upd_start_time := Some 37800000000\<rparr>)
     = (Inl (HTTPException 409), ex_store_created)"
    by (simp add: update_time_slot_info_def get_time_slot_by_id_def check_slot_conflicts_def
          no_updates_def ex_slot_defs ex_store_created_def ex_slot_created_def
          HTTP_409_CONFLICT_def)
  from 1 2 3 4 5 6 7 8 show ?thesis by blast
qed

theorem bulk_create_skips_conflict_check_witness:
  "\<exists>created s'.
     bulk_create_time_slots ex_store ex_bulk_request = Some (Inr created, s') \<and>
     time_slots s' = [ex_slot, ex_slot_bulk] \<and>
     check_slot_conflicts ex_store 1 7 (slot_start_time ex_slot_bulk)
       (slot_end_time ex_slot_bulk) None \<noteq> []"
proof -
  note t = bulk_create_skips_conflict_check
  have 1: "bulk_create_time_slots ex_store ex_bulk_request = Some (Inr [ex_slot_bulk], ex_store_bulk)"
    using t by (rule conjunct1)
  have 2: "time_slots ex_store_bulk = [ex_slot, ex_slot_bulk]"
    using t [THEN conjunct2] by (rule conjunct1)
  have 3: "check_slot_conflicts ex_store 1 7 (slot_start_time ex_slot_bulk)
             (slot_end_time ex_slot_bulk) None = [ex_slot]"
    using t [THEN conjunct2, THEN conjunct2, THEN conjunct2, THEN conjunct2, THEN conjunct2]
    by (rule conjunct1)
  show ?thesis
    by (rule exI [of _ "[ex_slot_bulk]"], rule exI [of _ ex_store_bulk]) (simp add: 1 2 3)
qed

end
